theory Spec2Isabelle
  imports Complex_Main "HOL-Library.Multiset" "HOL-Library.Log_Nat"
begin

section \<open>Visual regression orchestrator: capture and comparison services\<close>

text \<open>
  The repository keeps several revisions of its screenshot and comparison services side
  by side: a comparison service built on pixelmatch and one built on ODiff, and a
  lazy-load scroll step without and with a timeout and a ceiling.  Each definition below
  names the file and lines it embeds, and both revisions are embedded where they differ.
  JavaScript numbers are modelled as \<open>int\<close> where the code only produces counts (they
  stay below \<open>2^53\<close>, where every integer is a double) and as \<open>real\<close> for configured
  thresholds and percentages; a quotient or a product that the code computes is rounded
  to the nearest double.  A \<open>char\<close> of a \<open>string\<close> stands for one code unit of a
  JavaScript string.
\<close>

subsection \<open>Filename policy (src/services/screenshot.ts, lines 71-76)\<close>

text \<open>The character class \<open>[a-zA-Z0-9_-]\<close> of the regular expression.\<close>

definition safe_char :: "char \<Rightarrow> bool" where
  "safe_char c \<longleftrightarrow>
     (let n = (of_char c :: nat) in
        (97 \<le> n \<and> n \<le> 122) \<or> (65 \<le> n \<and> n \<le> 90) \<or> (48 \<le> n \<and> n \<le> 57)
        \<or> c = CHR ''_'' \<or> c = CHR ''-'')"

text \<open>\<open>s.replace(/[^a-zA-Z0-9_-]/g, '_')\<close>: every code unit outside the class becomes an underscore.\<close>

definition sanitize :: "string \<Rightarrow> string" where
  "sanitize s = map (\<lambda>c. if safe_char c then c else CHR ''_'') s"

definition generateFilename :: "string \<Rightarrow> string \<Rightarrow> string" where
  "generateFilename scenarioId viewportKey =
     (let safeId = sanitize scenarioId;
          safeViewport = sanitize viewportKey
      in safeId @ ''__'' @ safeViewport @ ''.png'')"

subsection \<open>Arithmetic of JavaScript numbers\<close>

text \<open>
  A JavaScript number is an IEEE 754 double: a multiple of a power of two by an integer
  of at most 53 bits.  For \<open>a > 0\<close>, \<open>binade a\<close> is the exponent \<open>e\<close> with
  \<open>2^e \<le> a < 2^(e+1)\<close>.
\<close>

definition binade :: "real \<Rightarrow> int" where
  "binade a = (if 1 \<le> a then bitlen \<lfloor>a\<rfloor> - 1 else - bitlen (\<lceil>1 / a\<rceil> - 1))"

text \<open>The nearest integer, the even one of the two when both are equally near.\<close>

definition round_half_even :: "real \<Rightarrow> int" where
  "round_half_even y =
     (let n = \<lfloor>y\<rfloor>; f = y - of_int n
      in if f < 1 / 2 then n else if 1 / 2 < f then n + 1 else if even n then n else n + 1)"

text \<open>
  The spacing of the doubles around \<open>x\<close>: 52 binary places below the leading bit, and
  \<open>2^-1074\<close> for the subnormal numbers below \<open>2^-1022\<close>.
\<close>

definition ulp :: "real \<Rightarrow> real" where
  "ulp x = 2 powi (max (binade \<bar>x\<bar>) (- 1022) - 52)"

text \<open>
  The double nearest to \<open>x\<close> (round to nearest, ties to even), the rounding of every
  arithmetic operation and of a numeric literal.  A result of \<open>2^1024\<close> or more is an
  infinity in JavaScript; the quotients below stay under it.
\<close>

definition double_of :: "real \<Rightarrow> real" where
  "double_of x = (if x = 0 then 0
                  else sgn x * (real_of_int (round_half_even (\<bar>x\<bar> / ulp x)) * ulp x))"

text \<open>
  \<open>a / b\<close> and \<open>a * b\<close> on numbers.  A division by zero gives an infinity or NaN in
  JavaScript and 0 here; each use below says what the code does in that case.
\<close>

definition js_div :: "real \<Rightarrow> real \<Rightarrow> real" where
  "js_div a b = double_of (a / b)"

definition js_mul :: "real \<Rightarrow> real \<Rightarrow> real" where
  "js_mul a b = double_of (a * b)"

subsection \<open>Pass criterion (src/services/comparison.ts 129-151, unnamed/part_003 178-200)\<close>

record ComparisonConfig =
  threshold :: real
  maxDiffPixels :: real
  maxDiffPixelRatio :: real

text \<open>
  \<open>diffPixels / totalPixels > r\<close> as JavaScript evaluates it: the quotient is rounded to
  a double before it is compared; a division by zero yields an infinity of the sign of
  the numerator (or NaN for 0/0), and only the positive infinity compares greater than
  a finite bound.
\<close>

definition ratio_exceeds :: "int \<Rightarrow> int \<Rightarrow> real \<Rightarrow> bool" where
  "ratio_exceeds diffPixels totalPixels r =
     (if totalPixels = 0 then 0 < diffPixels
      else js_div (real_of_int diffPixels) (real_of_int totalPixels) > r)"

text \<open>The pixelmatch revision, src/services/comparison.ts lines 129-151.\<close>

definition evaluatePass :: "ComparisonConfig \<Rightarrow> int \<Rightarrow> real \<Rightarrow> int \<Rightarrow> bool" where
  "evaluatePass cfg diffPixels diffPercentage totalPixels =
     (if diffPixels = 0 then True
      else if real_of_int diffPixels > maxDiffPixels cfg then False
      else if ratio_exceeds diffPixels totalPixels (maxDiffPixelRatio cfg) then False
      else True)"

text \<open>
  The ODiff revision, unnamed/part_003 lines 178-200: the ratio is taken as 0 when
  \<open>totalPixels\<close> is not positive.
\<close>

definition evaluatePass_odiff :: "ComparisonConfig \<Rightarrow> int \<Rightarrow> real \<Rightarrow> int \<Rightarrow> bool" where
  "evaluatePass_odiff cfg diffPixels diffPercentage totalPixels =
     (if diffPixels = 0 then True
      else if real_of_int diffPixels > maxDiffPixels cfg then False
      else (let diffRatio = (if totalPixels > 0
                             then js_div (real_of_int diffPixels) (real_of_int totalPixels) else 0)
            in if diffRatio > maxDiffPixelRatio cfg then False else True))"


subsection \<open>Domain substitution (unnamed/part_005, lines 28-53)\<close>

text \<open>
  The components of a parsed URL that \<open>replaceDomain\<close> reads.  The platform's URL
  parser is a parameter: it returns \<open>None\<close> where \<open>new URL(s)\<close> throws.
\<close>

record URL =
  pathname :: string
  search :: string
  hash :: string

text \<open>The code units below 256 that \<open>String.prototype.trim\<close> removes.\<close>

definition js_whitespace :: "char \<Rightarrow> bool" where
  "js_whitespace c \<longleftrightarrow> (of_char c :: nat) \<in> {9, 10, 11, 12, 13, 32, 160}"

definition js_trim :: "string \<Rightarrow> string" where
  "js_trim s = rev (dropWhile js_whitespace (rev (dropWhile js_whitespace s)))"

text \<open>\<open>s.replace(/\/+$/, '')\<close>: the run of slashes at the end of the string is removed.\<close>

definition strip_trailing_slashes :: "string \<Rightarrow> string" where
  "strip_trailing_slashes s = rev (dropWhile (\<lambda>c. c = CHR ''/'') (rev s))"

text \<open>\<open>newDomain\<close> is \<open>None\<close> for \<open>null\<close> and \<open>undefined\<close>.\<close>

definition replaceDomain :: "(string \<Rightarrow> URL option) \<Rightarrow> string \<Rightarrow> string option \<Rightarrow> string" where
  "replaceDomain parseURL originalUrl newDomain =
     (case newDomain of
        None \<Rightarrow> originalUrl
      | Some nd \<Rightarrow>
          if nd = [] \<or> js_trim nd = [] then originalUrl
          else (case parseURL originalUrl of
                  None \<Rightarrow> originalUrl
                | Some parsedOriginal \<Rightarrow>
                    (let normalizedDomain = strip_trailing_slashes nd
                     in normalizedDomain @ pathname parsedOriginal @ search parsedOriginal
                        @ hash parsedOriginal)))"

subsection \<open>Retry wrapper (src/services/screenshot.ts, lines 412-434)\<close>

record RetryConfig =
  maxRetries :: int
  retryDelay :: int

text \<open>
  \<open>maxRetries\<close> is a count and \<open>retryDelay\<close> a number of milliseconds, both integers.
  A thrown value is an \<open>Error\<close> instance with its message, or anything else.
\<close>

datatype thrown = ErrorObj string | NonError

datatype retry_event = CaptureAttempt | Delay int

text \<open>
  \<open>capture k\<close> is the outcome of the call of \<open>captureScreenshot\<close> made in loop iteration
  \<open>k\<close>: the path, or the value thrown.  The loop returns the outcome of
  \<open>captureWithRetry\<close> with the calls and timer waits it made, in order.
\<close>

text \<open>\<open>error instanceof Error ? error : new Error('Unknown error')\<close>\<close>

definition toError :: "thrown \<Rightarrow> thrown" where
  "toError e = (case e of ErrorObj m \<Rightarrow> ErrorObj m | NonError \<Rightarrow> ErrorObj ''Unknown error'')"

function captureWithRetry_loop ::
  "RetryConfig \<Rightarrow> (nat \<Rightarrow> thrown + string) \<Rightarrow> int \<Rightarrow> thrown option \<Rightarrow> retry_event list
     \<Rightarrow> (thrown + string) \<times> retry_event list" where
  "captureWithRetry_loop cfg capture attempt lastError evs =
     (if attempt \<le> maxRetries cfg then
        (case capture (nat attempt) of
           Inr path \<Rightarrow> (Inr path, evs @ [CaptureAttempt])
         | Inl e \<Rightarrow>
             (let lastError' = toError e;
                  evs' = evs @ [CaptureAttempt]
                         @ (if attempt < maxRetries cfg then [Delay (retryDelay cfg)] else [])
              in captureWithRetry_loop cfg capture (attempt + 1) (Some lastError') evs'))
      else (Inl (case lastError of Some e \<Rightarrow> e
                                 | None \<Rightarrow> ErrorObj ''Screenshot capture failed''), evs))"
  by pat_completeness auto
termination
  by (relation "measure (\<lambda>(cfg, capture, attempt, lastError, evs). nat (maxRetries cfg + 1 - attempt))")
     auto

declare captureWithRetry_loop.simps [simp del]

definition captureWithRetry ::
  "RetryConfig \<Rightarrow> (nat \<Rightarrow> thrown + string) \<Rightarrow> (thrown + string) \<times> retry_event list" where
  "captureWithRetry cfg capture = captureWithRetry_loop cfg capture 0 None []"

subsection \<open>Interaction executor (src/services/screenshot.ts, lines 160-203)\<close>

text \<open>
  The payload is untyped at run time, so the interaction type is a string; \<open>ivalue\<close> and
  \<open>wait_ms\<close> are \<open>None\<close> for \<open>null\<close>.
\<close>

record Interaction =
  itype :: string
  selector :: string
  ivalue :: "string option"
  wait_ms :: "int option"

datatype page_event =
  Click string | Fill string string | Hover string | WaitForTimeout int | Warn string

text \<open>
  The page is a parameter: given the calls made so far and a call of \<open>click\<close>, \<open>fill\<close> or
  \<open>hover\<close>, it says whether the call throws and with which message.  \<open>waitForTimeout\<close>
  and \<open>console.warn\<close> do not throw.
\<close>

type_synonym page = "page_event list \<Rightarrow> page_event \<Rightarrow> string option"

definition perform :: "page \<Rightarrow> page_event list \<Rightarrow> page_event \<Rightarrow> string option \<times> page_event list" where
  "perform pg evs ev = (pg evs ev, evs @ [ev])"

text \<open>The four cases of the \<open>switch\<close> statement.\<close>

definition known_type :: "string \<Rightarrow> bool" where
  "known_type t \<longleftrightarrow> t = ''click'' \<or> t = ''type'' \<or> t = ''mouseover'' \<or> t = ''wait''"

text \<open>The \<open>switch\<close> statement.\<close>

definition dispatch :: "page \<Rightarrow> page_event list \<Rightarrow> Interaction \<Rightarrow> string option \<times> page_event list" where
  "dispatch pg evs interaction =
     (if itype interaction = ''click'' then
        (if selector interaction \<noteq> [] then perform pg evs (Click (selector interaction))
         else (None, evs))
      else if itype interaction = ''type'' then
        (case ivalue interaction of
           Some v \<Rightarrow> if selector interaction \<noteq> [] then perform pg evs (Fill (selector interaction) v)
                     else (None, evs)
         | None \<Rightarrow> (None, evs))
      else if itype interaction = ''mouseover'' then
        (if selector interaction \<noteq> [] then perform pg evs (Hover (selector interaction))
         else (None, evs))
      else if itype interaction = ''wait'' then
        (case wait_ms interaction of
           Some ms \<Rightarrow> if ms > 0 then (None, evs @ [WaitForTimeout ms]) else (None, evs)
         | None \<Rightarrow> (None, evs))
      else (None, evs @ [Warn (''Unknown interaction type: '' @ itype interaction)]))"

text \<open>The wait after an interaction whose type is not \<open>wait\<close>.\<close>

definition settle :: "page_event list \<Rightarrow> Interaction \<Rightarrow> page_event list" where
  "settle evs interaction =
     (case wait_ms interaction of
        Some ms \<Rightarrow> if itype interaction \<noteq> ''wait'' \<and> ms > 0 then evs @ [WaitForTimeout ms] else evs
      | None \<Rightarrow> evs)"

text \<open>The \<open>for\<close> loop: the result is the error that aborted it, if any, and the calls made.\<close>

fun executeInteractions ::
  "page \<Rightarrow> page_event list \<Rightarrow> Interaction list \<Rightarrow> string option \<times> page_event list" where
  "executeInteractions pg evs [] = (None, evs)"
| "executeInteractions pg evs (interaction # rest) =
     (case dispatch pg evs interaction of
        (Some err, evs') \<Rightarrow> (Some err, evs')
      | (None, evs') \<Rightarrow> executeInteractions pg (settle evs' interaction) rest)"


subsection \<open>File system and image libraries\<close>

text \<open>
  A path names either a regular file or a directory: \<open>files\<close> maps the paths of
  regular files to their contents, \<open>dirs\<close> holds the directories that exist.
  \<open>diffCalls\<close> counts the calls of the pixel diff primitive (pixelmatch or ODiff).
  A file is a PNG image that decodes, or anything else.
\<close>

type_synonym path = string

record PNG =
  png_width :: nat
  png_height :: nat
  png_data :: "nat list"

datatype content = PngFile PNG | OtherFile "nat list"

record world =
  files :: "path \<Rightarrow> content option"
  dirs :: "path set"
  diffCalls :: nat

text \<open>\<open>path.join\<close> and \<open>path.dirname\<close> of the platform are parameters.\<close>

record node_path =
  join :: "path \<Rightarrow> path \<Rightarrow> path"
  dirname :: "path \<Rightarrow> path"

record VrtConfig =
  baselineDir :: path
  diffDir :: path
  comparison :: ComparisonConfig

text \<open>\<open>fs.existsSync\<close> on the path of a file.\<close>

definition existsSync :: "world \<Rightarrow> path \<Rightarrow> bool" where
  "existsSync w p \<longleftrightarrow> files w p \<noteq> None"

text \<open>\<open>ensureDirectoryExists\<close>: \<open>fs.existsSync\<close> on a directory, then \<open>fs.mkdirSync\<close>.\<close>

definition ensureDirectoryExists :: "world \<Rightarrow> path \<Rightarrow> world" where
  "ensureDirectoryExists w dirPath =
     (if dirPath \<notin> dirs w then w\<lparr>dirs := insert dirPath (dirs w)\<rparr> else w)"

definition unlinkSync :: "world \<Rightarrow> path \<Rightarrow> world" where
  "unlinkSync w p = w\<lparr>files := (files w)(p := None)\<rparr>"

definition writeFileSync :: "world \<Rightarrow> path \<Rightarrow> content \<Rightarrow> world" where
  "writeFileSync w p f = w\<lparr>files := (files w)(p \<mapsto> f)\<rparr>"

text \<open>\<open>fs.copyFileSync\<close> throws when the source file does not exist.\<close>

definition copyFileSync :: "world \<Rightarrow> path \<Rightarrow> path \<Rightarrow> string + world" where
  "copyFileSync w src dest =
     (case files w src of
        None \<Rightarrow> Inl (''ENOENT: no such file or directory, copyfile '' @ src)
      | Some f \<Rightarrow> Inr (w\<lparr>files := (files w)(dest \<mapsto> f)\<rparr>))"

text \<open>\<open>loadImage\<close> (comparison.ts 39-42): \<open>readFileSync\<close>, then \<open>PNG.sync.read\<close>.\<close>

definition loadImage :: "world \<Rightarrow> path \<Rightarrow> string + PNG" where
  "loadImage w imagePath =
     (case files w imagePath of
        None \<Rightarrow> Inl (''ENOENT: no such file or directory, open '' @ imagePath)
      | Some (PngFile img) \<Rightarrow> Inr img
      | Some (OtherFile bytes) \<Rightarrow> Inl ''Invalid file signature'')"

text \<open>
  The pixelmatch library is a parameter: from the two pixel buffers, whether a diff
  buffer was passed, the width, the height and the threshold it gives the number of
  differing pixels and the diff buffer, or throws.
\<close>

type_synonym pixelmatch_fn =
  "nat list \<Rightarrow> nat list \<Rightarrow> bool \<Rightarrow> nat \<Rightarrow> nat \<Rightarrow> real \<Rightarrow> string + (int \<times> nat list)"

text \<open>
  The ODiff binary is a parameter: from the two files and the threshold (the options
  \<open>failOnLayoutDiff: true\<close> and \<open>antialiasing: true\<close> are fixed) it gives its result, or
  throws, and the diff image it wrote, if any.
\<close>

datatype ODiffResult = Match | LayoutDiff | PixelDiff int real | FileNotExists string

type_synonym odiff_fn =
  "content option \<Rightarrow> content option \<Rightarrow> real \<Rightarrow> (string + ODiffResult) \<times> content option"

subsection \<open>Comparison service, pixelmatch revision (src/services/comparison.ts)\<close>

text \<open>
  \<open>c_error\<close> and \<open>c_warning\<close> exist in the ODiff revision only; \<open>t_scenarioUrl\<close> and
  \<open>t_warning\<close> likewise.  An absent or \<open>undefined\<close> field is \<open>None\<close>.
\<close>

record ComparisonResult =
  c_passed :: bool
  c_diffPixels :: int
  c_diffPercentage :: real
  c_totalPixels :: int
  c_diffPath :: "path option"
  c_error :: "string option"
  c_warning :: "string option"

record TestResult =
  t_scenarioId :: string
  t_scenarioTitle :: string
  t_scenarioUrl :: "string option"
  t_viewport :: string
  t_passed :: bool
  t_diffPixels :: "int option"
  t_diffPercentage :: "real option"
  t_error :: "string option"
  t_warning :: "string option"
  t_screenshotPath :: "path option"
  t_baselinePath :: "path option"
  t_diffPath :: "path option"

text \<open>A \<open>diffPath\<close> argument is truthy when it is given and not the empty string.\<close>

definition truthy :: "path option \<Rightarrow> bool" where
  "truthy diffPath \<longleftrightarrow> (case diffPath of None \<Rightarrow> False | Some p \<Rightarrow> p \<noteq> [])"

definition path_of :: "path option \<Rightarrow> path" where
  "path_of diffPath = (case diffPath of None \<Rightarrow> [] | Some p \<Rightarrow> p)"

text \<open>
  \<open>compare\<close> (lines 47-124).  \<open>Inl\<close> is a thrown error.  With \<open>totalPixels = 0\<close> the
  percentage is not a number in JavaScript; it is 0 here.
\<close>

definition compare ::
  "pixelmatch_fn \<Rightarrow> node_path \<Rightarrow> VrtConfig \<Rightarrow> world \<Rightarrow> path \<Rightarrow> path \<Rightarrow> path option
     \<Rightarrow> (string + ComparisonResult) \<times> world" where
  "compare pixelmatch np cfg w baselinePath screenshotPath diffPath =
     (if \<not> existsSync w baselinePath then
        (Inr \<lparr>c_passed = False, c_diffPixels = -1, c_diffPercentage = 100, c_totalPixels = 0,
              c_diffPath = None, c_error = None, c_warning = None\<rparr>, w)
      else if \<not> existsSync w screenshotPath then
        (Inl (''Screenshot not found: '' @ screenshotPath), w)
      else
        (case loadImage w baselinePath of
           Inl e \<Rightarrow> (Inl e, w)
         | Inr baseline \<Rightarrow>
        (case loadImage w screenshotPath of
           Inl e \<Rightarrow> (Inl e, w)
         | Inr screenshot \<Rightarrow>
             if png_width baseline \<noteq> png_width screenshot
                \<or> png_height baseline \<noteq> png_height screenshot then
               (Inr \<lparr>c_passed = False, c_diffPixels = -1, c_diffPercentage = 100,
                     c_totalPixels = int (png_width baseline * png_height baseline),
                     c_diffPath = None, c_error = None, c_warning = None\<rparr>, w)
             else
               (let totalPixels = int (png_width baseline * png_height baseline);
                    w1 = w\<lparr>diffCalls := diffCalls w + 1\<rparr>
                in case pixelmatch (png_data baseline) (png_data screenshot) (truthy diffPath)
                          (png_width baseline) (png_height baseline) (threshold (comparison cfg)) of
                     Inl e \<Rightarrow> (Inl e, w1)
                   | Inr (diffPixels, diffData) \<Rightarrow>
                       (let diffPercentage =
                              js_mul (js_div (real_of_int diffPixels) (real_of_int totalPixels)) 100;
                            passed = evaluatePass (comparison cfg) diffPixels diffPercentage totalPixels
                        in if truthy diffPath \<and> diffPixels > 0 then
                             (let w2 = ensureDirectoryExists w1 (dirname np (path_of diffPath));
                                  w3 = writeFileSync w2 (path_of diffPath)
                                         (PngFile \<lparr>png_width = png_width baseline,
                                                   png_height = png_height baseline,
                                                   png_data = diffData\<rparr>)
                              in (Inr \<lparr>c_passed = passed, c_diffPixels = diffPixels,
                                       c_diffPercentage = diffPercentage, c_totalPixels = totalPixels,
                                       c_diffPath = diffPath, c_error = None, c_warning = None\<rparr>, w3))
                           else
                             (Inr \<lparr>c_passed = passed, c_diffPixels = diffPixels,
                                   c_diffPercentage = diffPercentage, c_totalPixels = totalPixels,
                                   c_diffPath = None, c_error = None, c_warning = None\<rparr>, w1))))))"

text \<open>The key of a baseline and its diff: \<open>`${scenarioId}__${viewportKey}.png`\<close>.\<close>

definition baseline_filename :: "string \<Rightarrow> string \<Rightarrow> string" where
  "baseline_filename scenarioId viewportKey = scenarioId @ ''__'' @ viewportKey @ ''.png''"

text \<open>\<open>compareScreenshot\<close> (lines 156-204).\<close>

definition compareScreenshot ::
  "pixelmatch_fn \<Rightarrow> node_path \<Rightarrow> VrtConfig \<Rightarrow> world \<Rightarrow> string \<Rightarrow> string \<Rightarrow> path
     \<Rightarrow> TestResult \<times> world" where
  "compareScreenshot pixelmatch np cfg w scenarioId viewportKey screenshotPath =
     (let filename = baseline_filename scenarioId viewportKey;
          baselinePath = join np (baselineDir cfg) filename;
          diffPath = join np (diffDir cfg) filename
      in if \<not> existsSync w baselinePath then
           (\<lparr>t_scenarioId = scenarioId, t_scenarioTitle = scenarioId, t_scenarioUrl = None,
             t_viewport = viewportKey, t_passed = False, t_diffPixels = None,
             t_diffPercentage = None,
             t_error = Some ''Baseline not found. Run generate-baseline first.'',
             t_warning = None, t_screenshotPath = Some screenshotPath,
             t_baselinePath = Some baselinePath, t_diffPath = None\<rparr>, w)
         else
           (case compare pixelmatch np cfg w baselinePath screenshotPath (Some diffPath) of
              (Inr result, w') \<Rightarrow>
                (\<lparr>t_scenarioId = scenarioId, t_scenarioTitle = scenarioId, t_scenarioUrl = None,
                  t_viewport = viewportKey, t_passed = c_passed result,
                  t_diffPixels = Some (c_diffPixels result),
                  t_diffPercentage = Some (c_diffPercentage result),
                  t_error = None, t_warning = None, t_screenshotPath = Some screenshotPath,
                  t_baselinePath = Some baselinePath, t_diffPath = c_diffPath result\<rparr>, w')
            | (Inl message, w') \<Rightarrow>
                (\<lparr>t_scenarioId = scenarioId, t_scenarioTitle = scenarioId, t_scenarioUrl = None,
                  t_viewport = viewportKey, t_passed = False, t_diffPixels = None,
                  t_diffPercentage = None, t_error = Some message, t_warning = None,
                  t_screenshotPath = Some screenshotPath,
                  t_baselinePath = Some baselinePath, t_diffPath = None\<rparr>, w')))"

text \<open>\<open>baselineExists\<close> (lines 209-213) and \<open>copyToBaseline\<close> (lines 218-226), the same in both revisions.\<close>

definition baselineExists :: "node_path \<Rightarrow> VrtConfig \<Rightarrow> world \<Rightarrow> string \<Rightarrow> string \<Rightarrow> bool" where
  "baselineExists np cfg w scenarioId viewportKey =
     existsSync w (join np (baselineDir cfg) (baseline_filename scenarioId viewportKey))"

definition copyToBaseline ::
  "node_path \<Rightarrow> VrtConfig \<Rightarrow> world \<Rightarrow> path \<Rightarrow> string \<Rightarrow> string \<Rightarrow> string + (path \<times> world)" where
  "copyToBaseline np cfg w screenshotPath scenarioId viewportKey =
     (let filename = baseline_filename scenarioId viewportKey;
          baselinePath = join np (baselineDir cfg) filename;
          w1 = ensureDirectoryExists w (baselineDir cfg)
      in case copyFileSync w1 screenshotPath baselinePath of
           Inl e \<Rightarrow> Inl e
         | Inr w2 \<Rightarrow> Inr (baselinePath, w2))"

subsection \<open>Comparison service, ODiff revision (unnamed/part_003)\<close>

text \<open>\<open>Math.round\<close>.\<close>

definition js_round :: "real \<Rightarrow> int" where
  "js_round x = \<lfloor>x + 1 / 2\<rfloor>"

text \<open>\<open>if (diffPath && fs.existsSync(diffPath)) fs.unlinkSync(diffPath)\<close>\<close>

definition cleanDiffFile :: "world \<Rightarrow> path option \<Rightarrow> world" where
  "cleanDiffFile w diffPath =
     (if truthy diffPath \<and> existsSync w (path_of diffPath) then unlinkSync w (path_of diffPath) else w)"

text \<open>
  \<open>compare\<close> (lines 40-173).  Creating the diff directory does not fail in this model,
  so this revision of \<open>compare\<close> throws nothing.  Where \<open>diffPercentage / 100\<close> rounds to
  0, or the quotient by it leaves the range of the doubles, \<open>totalPixels\<close> is infinite in
  JavaScript; it is 0 or a count of \<open>2^1024\<close> or more here.
\<close>

definition compare_odiff ::
  "odiff_fn \<Rightarrow> node_path \<Rightarrow> VrtConfig \<Rightarrow> world \<Rightarrow> path \<Rightarrow> path \<Rightarrow> path option
     \<Rightarrow> ComparisonResult \<times> world" where
  "compare_odiff odiff np cfg w baselinePath screenshotPath diffPath =
     (if \<not> existsSync w baselinePath then
        (\<lparr>c_passed = False, c_diffPixels = -1, c_diffPercentage = 100, c_totalPixels = 0,
          c_diffPath = None, c_error = Some ''Baseline not found'', c_warning = None\<rparr>, w)
      else if \<not> existsSync w screenshotPath then
        (\<lparr>c_passed = False, c_diffPixels = -1, c_diffPercentage = 100, c_totalPixels = 0,
          c_diffPath = None, c_error = Some ''Screenshot not found'', c_warning = None\<rparr>, w)
      else
        (let w1 = (if truthy diffPath then ensureDirectoryExists w (dirname np (path_of diffPath))
                   else w);
             (reply, written) =
                odiff (files w1 baselinePath) (files w1 screenshotPath) (threshold (comparison cfg));
             w2 = w1\<lparr>diffCalls := diffCalls w1 + 1\<rparr>;
             w3 = (case written of
                     Some img \<Rightarrow> if truthy diffPath then writeFileSync w2 (path_of diffPath) img else w2
                   | None \<Rightarrow> w2)
         in case reply of
              Inl message \<Rightarrow>
                (\<lparr>c_passed = False, c_diffPixels = -1, c_diffPercentage = 100, c_totalPixels = 0,
                  c_diffPath = None, c_error = Some message, c_warning = None\<rparr>, w3)
            | Inr Match \<Rightarrow>
                (\<lparr>c_passed = True, c_diffPixels = 0, c_diffPercentage = 0, c_totalPixels = 0,
                  c_diffPath = None, c_error = None, c_warning = None\<rparr>, cleanDiffFile w3 diffPath)
            | Inr LayoutDiff \<Rightarrow>
                (\<lparr>c_passed = True, c_diffPixels = 0, c_diffPercentage = 0, c_totalPixels = 0,
                  c_diffPath = None, c_error = None, c_warning = Some ''dimension-mismatch''\<rparr>,
                 cleanDiffFile w3 diffPath)
            | Inr (FileNotExists f) \<Rightarrow>
                (\<lparr>c_passed = False, c_diffPixels = -1, c_diffPercentage = 100, c_totalPixels = 0,
                  c_diffPath = None, c_error = Some (''File not found: '' @ f), c_warning = None\<rparr>, w3)
            | Inr (PixelDiff diffPixels diffPercentage) \<Rightarrow>
                if diffPixels = 0 then
                  (\<lparr>c_passed = True, c_diffPixels = 0, c_diffPercentage = 0, c_totalPixels = 0,
                    c_diffPath = None, c_error = None, c_warning = None\<rparr>, cleanDiffFile w3 diffPath)
                else
                  (let totalPixels = (if diffPercentage > 0
                                      then js_round (js_div (real_of_int diffPixels)
                                                               (js_div diffPercentage 100))
                                      else 0);
                       passed = evaluatePass_odiff (comparison cfg) diffPixels diffPercentage totalPixels
                   in (\<lparr>c_passed = passed, c_diffPixels = diffPixels,
                        c_diffPercentage = diffPercentage, c_totalPixels = totalPixels,
                        c_diffPath = (if truthy diffPath \<and> existsSync w3 (path_of diffPath)
                                      then diffPath else None),
                        c_error = None, c_warning = None\<rparr>, w3))))"

text \<open>\<open>compareScreenshot\<close> (lines 205-257).\<close>

definition compareScreenshot_odiff ::
  "odiff_fn \<Rightarrow> node_path \<Rightarrow> VrtConfig \<Rightarrow> world \<Rightarrow> string \<Rightarrow> string \<Rightarrow> path
     \<Rightarrow> TestResult \<times> world" where
  "compareScreenshot_odiff odiff np cfg w scenarioId viewportKey screenshotPath =
     (let filename = baseline_filename scenarioId viewportKey;
          baselinePath = join np (baselineDir cfg) filename;
          diffPath = join np (diffDir cfg) filename
      in if \<not> existsSync w baselinePath then
           (\<lparr>t_scenarioId = scenarioId, t_scenarioTitle = scenarioId, t_scenarioUrl = Some [],
             t_viewport = viewportKey, t_passed = False, t_diffPixels = None,
             t_diffPercentage = None,
             t_error = Some ''Baseline not found. Run generate-baseline first.'',
             t_warning = None, t_screenshotPath = Some screenshotPath,
             t_baselinePath = Some baselinePath, t_diffPath = None\<rparr>, w)
         else
           (case compare_odiff odiff np cfg w baselinePath screenshotPath (Some diffPath) of
              (result, w') \<Rightarrow>
                (\<lparr>t_scenarioId = scenarioId, t_scenarioTitle = scenarioId, t_scenarioUrl = Some [],
                  t_viewport = viewportKey, t_passed = c_passed result,
                  t_diffPixels = Some (c_diffPixels result),
                  t_diffPercentage = Some (c_diffPercentage result),
                  t_error = None, t_warning = c_warning result,
                  t_screenshotPath = Some screenshotPath,
                  t_baselinePath = Some baselinePath, t_diffPath = c_diffPath result\<rparr>, w')))"

subsection \<open>Worker pool (src/services/screenshot.ts, lines 291-340 and 384-397)\<close>

text \<open>
  The tasks of \<open>captureAll\<close> and the results its workers push.  A worker is
  \<open>Ready\<close> at the head of its loop, \<open>Running i\<close> while it awaits the capture of task
  \<open>i\<close>, and \<open>Finished\<close> once it has left the loop.  The workers are coroutines of one
  thread: between two \<open>await\<close>s a worker runs alone, so a run of the pool is a sequence
  of steps, each taken by one worker.  A step of a ready worker reads and increments
  the shared index and takes the task or leaves the loop; a step of a running worker
  ends its capture, pushes the result and counts it.  \<open>claimed\<close> logs the indices whose
  tasks were taken.  The loop of \<open>processTask\<close> in the run-tests command
  (unnamed/part_000, lines 500-585) has the same shape, with \<open>runTask\<close> the capture
  and comparison of one task and \<open>initial\<close> the results pushed before the pool starts.
\<close>

record CaptureTask =
  task_scenarioId :: string
  task_viewport :: string
  task_outputDir :: string
  task_index :: nat

record CaptureResult =
  r_key :: string
  r_path :: string
  r_index :: nat
  r_error :: "string option"

text \<open>The body of the worker loop for one task: the capture and its \<open>try\<close>/\<open>catch\<close>.\<close>

definition captureTask :: "(CaptureTask \<Rightarrow> thrown + string) \<Rightarrow> CaptureTask \<Rightarrow> CaptureResult" where
  "captureTask captureScreenshot task =
     (let key = task_scenarioId task @ ''__'' @ task_viewport task
      in case captureScreenshot task of
           Inr screenshotPath \<Rightarrow>
             \<lparr>r_key = key, r_path = screenshotPath, r_index = task_index task, r_error = None\<rparr>
         | Inl e \<Rightarrow>
             (let errorMessage = (case e of ErrorObj m \<Rightarrow> m | NonError \<Rightarrow> ''Unknown error'')
              in \<lparr>r_key = key, r_path = [], r_index = task_index task,
                  r_error = Some errorMessage\<rparr>))"

datatype wstate = Ready | Running nat | Finished

record 'r pool =
  taskIndex :: nat
  completedCount :: nat
  results :: "'r list"
  claimed :: "nat list"
  workers :: "wstate list"

text \<open>One step of worker \<open>i\<close> (lines 300-339).\<close>

definition worker_step :: "('t \<Rightarrow> 'r) \<Rightarrow> 't list \<Rightarrow> nat \<Rightarrow> 'r pool \<Rightarrow> 'r pool" where
  "worker_step runTask tasks i s =
     (if i \<ge> length (workers s) then s
      else case workers s ! i of
             Ready \<Rightarrow>
               (let currentIndex = taskIndex s;
                    s' = s\<lparr>taskIndex := currentIndex + 1\<rparr>
                in if currentIndex \<ge> length tasks
                   then s'\<lparr>workers := (workers s)[i := Finished]\<rparr>
                   else s'\<lparr>claimed := claimed s @ [currentIndex],
                           workers := (workers s)[i := Running currentIndex]\<rparr>)
           | Running currentIndex \<Rightarrow>
               s\<lparr>results := results s @ [runTask (tasks ! currentIndex)],
                 completedCount := completedCount s + 1,
                 workers := (workers s)[i := Ready]\<rparr>
           | Finished \<Rightarrow> s)"

text \<open>The shared state \<open>captureAll\<close> sets up (lines 385-394), and a run under a schedule.\<close>

definition start_pool :: "nat \<Rightarrow> 't list \<Rightarrow> 'r list \<Rightarrow> 'r pool" where
  "start_pool configuredWorkers tasks initial =
     (let numWorkers = min configuredWorkers (length tasks)
      in \<lparr>taskIndex = 0, completedCount = 0, results = initial, claimed = [],
          workers = replicate numWorkers Ready\<rparr>)"

definition run_pool :: "('t \<Rightarrow> 'r) \<Rightarrow> 't list \<Rightarrow> nat list \<Rightarrow> 'r pool \<Rightarrow> 'r pool" where
  "run_pool runTask tasks schedule s = foldl (\<lambda>s i. worker_step runTask tasks i s) s schedule"

text \<open>\<open>Promise.all\<close> resolves when every worker has left its loop.\<close>

definition all_finished :: "'r pool \<Rightarrow> bool" where
  "all_finished s \<longleftrightarrow> list_all (\<lambda>w. w = Finished) (workers s)"

text \<open>The task indices held by running workers, and the invariant of the pool.\<close>

fun held :: "wstate \<Rightarrow> nat multiset" where
  "held (Running i) = {#i#}"
| "held Ready = {#}"
| "held Finished = {#}"

definition held_all :: "wstate list \<Rightarrow> nat multiset" where
  "held_all ws = sum_list (map held ws)"

definition pool_inv :: "('t \<Rightarrow> 'r) \<Rightarrow> 't list \<Rightarrow> 'r list \<Rightarrow> 'r pool \<Rightarrow> bool" where
  "pool_inv runTask tasks initial s \<longleftrightarrow>
     mset (results s) + image_mset (\<lambda>i. runTask (tasks ! i)) (held_all (workers s))
       = mset initial + mset (map runTask (take (taskIndex s) tasks))
     \<and> (\<forall>i \<in># held_all (workers s). i < length tasks)
     \<and> (Finished \<in> set (workers s) \<longrightarrow> length tasks \<le> taskIndex s)
     \<and> completedCount s + size (held_all (workers s)) = min (taskIndex s) (length tasks)
     \<and> claimed s = [0..<min (taskIndex s) (length tasks)]
     \<and> taskIndex s = min (taskIndex s) (length tasks)
                        + length (filter (\<lambda>w. w = Finished) (workers s))"

definition pool_measure :: "'t list \<Rightarrow> 'r pool \<Rightarrow> nat" where
  "pool_measure tasks s =
     2 * (length tasks + length (workers s) - taskIndex s) + size (held_all (workers s))"


subsection \<open>Lazy-load scroll step (src/services/failed-tracker.ts second part, lines 164-205)\<close>

definition maxScrollTime :: int where "maxScrollTime = 30000"
definition maxScrollHeight :: int where "maxScrollHeight = 50000"
definition distance :: int where "distance = 300"

text \<open>
  The timer callback runs every 100 ms.  \<open>now k\<close> is \<open>Date.now()\<close> and \<open>scrollHeight k\<close>
  is \<open>document.body.scrollHeight\<close> as callback \<open>k\<close> reads them; both are arbitrary.
  The result gives the number of callbacks that ran, the distance scrolled and the
  calls of \<open>window.scrollBy\<close> and \<open>window.scrollTo\<close>, in order.
\<close>

datatype window_call = ScrollBy int int | ScrollTo int int

record scroll_result =
  callbacks :: nat
  totalHeight :: int
  window_calls :: "window_call list"

function timer_callback ::
  "(nat \<Rightarrow> int) \<Rightarrow> (nat \<Rightarrow> int) \<Rightarrow> int \<Rightarrow> nat \<Rightarrow> int \<Rightarrow> window_call list \<Rightarrow> scroll_result" where
  "timer_callback now scrollHeight startTime k scrolled calls =
     (if now k - startTime > maxScrollTime then
        \<lparr>callbacks = k + 1, totalHeight = scrolled, window_calls = calls @ [ScrollTo 0 0]\<rparr>
      else if scrolled \<ge> maxScrollHeight then
        \<lparr>callbacks = k + 1, totalHeight = scrolled, window_calls = calls @ [ScrollTo 0 0]\<rparr>
      else
        (let calls' = calls @ [ScrollBy 0 distance];
             scrolled' = scrolled + distance
         in if scrolled' \<ge> scrollHeight k then
              \<lparr>callbacks = k + 1, totalHeight = scrolled', window_calls = calls' @ [ScrollTo 0 0]\<rparr>
            else timer_callback now scrollHeight startTime (k + 1) scrolled' calls'))"
  by pat_completeness auto
termination
  by (relation "measure (\<lambda>(now, scrollHeight, startTime, k, scrolled, calls). nat (maxScrollHeight - scrolled))")
     (auto simp: distance_def)

declare timer_callback.simps [simp del]

definition triggerLazyLoading :: "(nat \<Rightarrow> int) \<Rightarrow> (nat \<Rightarrow> int) \<Rightarrow> int \<Rightarrow> scroll_result" where
  "triggerLazyLoading now scrollHeight startTime = timer_callback now scrollHeight startTime 0 0 []"

text \<open>Why the last callback stopped: timeout, ceiling, or document height covered.\<close>

definition stop_reason :: "(nat \<Rightarrow> int) \<Rightarrow> (nat \<Rightarrow> int) \<Rightarrow> int \<Rightarrow> scroll_result \<Rightarrow> bool" where
  "stop_reason now scrollHeight startTime r \<longleftrightarrow>
     now (callbacks r - 1) - startTime > maxScrollTime
     \<or> totalHeight r \<ge> maxScrollHeight
     \<or> totalHeight r \<ge> scrollHeight (callbacks r - 1)"


text \<open>
  The earlier revision (src/services/screenshot.ts first part, lines 81-100) has neither
  the timeout nor the ceiling.  Its loop need not stop, so it takes fuel: \<open>None\<close> means
  the timer is still running after that many callbacks.
\<close>

fun timer_callback_unbounded ::
  "nat \<Rightarrow> (nat \<Rightarrow> int) \<Rightarrow> nat \<Rightarrow> int \<Rightarrow> window_call list \<Rightarrow> scroll_result option" where
  "timer_callback_unbounded 0 scrollHeight k scrolled calls = None"
| "timer_callback_unbounded (Suc fuel) scrollHeight k scrolled calls =
     (let calls' = calls @ [ScrollBy 0 distance];
          scrolled' = scrolled + distance
      in if scrolled' \<ge> scrollHeight k then
           Some \<lparr>callbacks = k + 1, totalHeight = scrolled', window_calls = calls' @ [ScrollTo 0 0]\<rparr>
         else timer_callback_unbounded fuel scrollHeight (k + 1) scrolled' calls')"

text \<open>
  What ODiff does with \<open>failOnLayoutDiff: true\<close> on two images of different width or
  height: it reports a layout difference.
\<close>

definition odiff_layout_contract :: "odiff_fn \<Rightarrow> bool" where
  "odiff_layout_contract odiff \<longleftrightarrow>
     (\<forall>b s t. png_width b \<noteq> png_width s \<or> png_height b \<noteq> png_height s \<longrightarrow>
        fst (odiff (Some (PngFile b)) (Some (PngFile s)) t) = Inr LayoutDiff)"

subsection \<open>Example inputs\<close>

definition example_path :: node_path where
  "example_path = \<lparr>join = (\<lambda>d f. d @ ''/'' @ f),
                    dirname = (\<lambda>p. rev (drop 1 (dropWhile (\<lambda>c. c \<noteq> CHR ''/'') (rev p))))\<rparr>"

definition example_config :: VrtConfig where
  "example_config = \<lparr>baselineDir = ''./baselines'', diffDir = ''./diffs'',
       comparison = \<lparr>threshold = 0.1, maxDiffPixels = 100, maxDiffPixelRatio = 0.01\<rparr>\<rparr>"

definition count_differing :: "nat list \<Rightarrow> nat list \<Rightarrow> int" where
  "count_differing a b = int (length (filter (\<lambda>(x, y). x \<noteq> y) (zip a b)))"

definition example_pixelmatch :: pixelmatch_fn where
  "example_pixelmatch a b out w h t =
     (if length a \<noteq> length b then Inl ''Image sizes do not match.''
      else Inr (count_differing a b, if out then a else []))"

definition example_odiff :: odiff_fn where
  "example_odiff b s t =
     (case (b, s) of
        (Some (PngFile x), Some (PngFile y)) \<Rightarrow>
          if png_width x \<noteq> png_width y \<or> png_height x \<noteq> png_height y then (Inr LayoutDiff, None)
          else if png_data x = png_data y then (Inr Match, None)
          else (Inr (PixelDiff (count_differing (png_data x) (png_data y))
                       (js_div (js_mul 100 (real_of_int (count_differing (png_data x) (png_data y))))
                          (real (png_width x * png_height x)))), Some (PngFile x))
      | _ \<Rightarrow> (Inl ''Could not load comparison image'', None))"

definition image_1x1 :: PNG where
  "image_1x1 = \<lparr>png_width = 1, png_height = 1, png_data = [0, 0, 0, 255]\<rparr>"

definition image_1x2 :: PNG where
  "image_1x2 = \<lparr>png_width = 1, png_height = 2, png_data = [0, 0, 0, 255, 0, 0, 0, 255]\<rparr>"

definition image_1x3 :: PNG where
  "image_1x3 = \<lparr>png_width = 1, png_height = 3,
                 png_data = [0, 0, 0, 255, 0, 0, 0, 255, 0, 0, 0, 255]\<rparr>"

definition image_1x3_changed :: PNG where
  "image_1x3_changed = \<lparr>png_width = 1, png_height = 3,
                         png_data = [255, 0, 0, 255, 0, 0, 0, 255, 0, 0, 0, 255]\<rparr>"

text \<open>
  Two configurations that allow 1000 differing pixels: one whose \<open>maxDiffPixelRatio\<close> is
  the literal \<open>0.3333333333333333\<close>, read as the nearest double, and one with a quarter.
\<close>

definition third_config :: VrtConfig where
  "third_config = \<lparr>baselineDir = ''./baselines'', diffDir = ''./diffs'',
       comparison = \<lparr>threshold = double_of 0.1, maxDiffPixels = 1000,
                     maxDiffPixelRatio = double_of 0.3333333333333333\<rparr>\<rparr>"

definition quarter_config :: VrtConfig where
  "quarter_config = \<lparr>baselineDir = ''./baselines'', diffDir = ''./diffs'',
       comparison = \<lparr>threshold = double_of 0.1, maxDiffPixels = 1000,
                     maxDiffPixelRatio = 0.25\<rparr>\<rparr>"

text \<open>
  A world with a candidate screenshot only, one with a baseline of another height, and
  one whose candidate differs from the baseline in one pixel of three.
\<close>

definition world_candidate_only :: world where
  "world_candidate_only =
     \<lparr>files = [''./screenshots/home__desktop.png'' \<mapsto> PngFile image_1x2],
      dirs = {''./screenshots''}, diffCalls = 0\<rparr>"

definition world_mismatch :: world where
  "world_mismatch =
     \<lparr>files = [''./screenshots/home__desktop.png'' \<mapsto> PngFile image_1x2,
               ''./baselines/home__desktop.png'' \<mapsto> PngFile image_1x1],
      dirs = {''./screenshots'', ''./baselines''}, diffCalls = 0\<rparr>"

definition world_one_of_three :: world where
  "world_one_of_three =
     \<lparr>files = [''./screenshots/home__desktop.png'' \<mapsto> PngFile image_1x3_changed,
               ''./baselines/home__desktop.png'' \<mapsto> PngFile image_1x3],
      dirs = {''./screenshots'', ''./baselines''}, diffCalls = 0\<rparr>"

definition example_tasks :: "CaptureTask list" where
  "example_tasks =
     [\<lparr>task_scenarioId = ''home'', task_viewport = ''desktop'', task_outputDir = ''./screenshots'',
       task_index = 0\<rparr>,
      \<lparr>task_scenarioId = ''home'', task_viewport = ''mobile'', task_outputDir = ''./screenshots'',
       task_index = 1\<rparr>]"

definition example_capture :: "CaptureTask \<Rightarrow> thrown + string" where
  "example_capture task =
     (if task_viewport task = ''mobile'' then Inl (ErrorObj ''Timeout 30000ms exceeded'')
      else Inr (task_outputDir task @ ''/'' @ task_scenarioId task @ ''__'' @ task_viewport task @ ''.png''))"

text \<open>A page that grows by one scroll step at every timer tick.\<close>

definition growing_page :: "nat \<Rightarrow> int" where
  "growing_page k = distance * (int k + 2)"


definition example_parseURL :: "string \<Rightarrow> URL option" where
  "example_parseURL s =
     (if s = ''https://local.site/page?foo=bar#section''
      then Some \<lparr>pathname = ''/page'', search = ''?foo=bar'', hash = ''#section''\<rparr> else None)"

section \<open>Properties\<close>

subsection \<open>Filename policy\<close>

lemma sanitize_length: "length (sanitize s) = length s"
  by (simp add: sanitize_def)

lemma sanitize_safe: "\<forall>c\<in>set s. safe_char c \<Longrightarrow> sanitize s = s"
  by (simp add: sanitize_def map_idI)

lemma split_at_first_underscore:
  assumes "CHR ''_'' \<notin> set a" "CHR ''_'' \<notin> set c"
    and "a @ CHR ''_'' # x = c @ CHR ''_'' # y"
  shows "a = c \<and> x = y"
proof -
  have "takeWhile (\<lambda>ch. ch \<noteq> CHR ''_'') (a @ CHR ''_'' # x) = a"
    using assms(1) by (auto simp: takeWhile_tail takeWhile_eq_all_conv)
  moreover have "takeWhile (\<lambda>ch. ch \<noteq> CHR ''_'') (c @ CHR ''_'' # y) = c"
    using assms(2) by (auto simp: takeWhile_tail takeWhile_eq_all_conv)
  ultimately have "a = c" using assms(3) by simp
  with assms(3) show ?thesis by simp
qed

text \<open>
  C6 (as stated): distinct input pairs always produce distinct filenames.  This fails:
  the slash of \<open>a/b\<close> is replaced by the underscore that \<open>a_b\<close> already has.
\<close>

theorem generateFilename_collision:
  "(''a/b'', ''x'') \<noteq> (''a_b'', ''x'') \<and> generateFilename ''a/b'' ''x'' = generateFilename ''a_b'' ''x''"
  by (simp add: generateFilename_def sanitize_def safe_char_def)

text \<open>
  C6 (amended): \<open>generateFilename\<close> is \<open>sanitize id @ "__" @ sanitize key @ ".png"\<close>, where
  \<open>sanitize\<close> keeps the length, keeps every character of \<open>[A-Za-z0-9_-]\<close> and replaces every
  other character by an underscore.  Two pairs with the same id (or the same key) have
  equal filenames exactly when their keys (or ids) are equal after sanitizing; and two
  pairs whose ids and keys consist of characters of that class only, with no underscore
  in the ids, have equal filenames only if they are the same pair.
\<close>

theorem generateFilename_policy:
  "generateFilename a b = sanitize a @ ''__'' @ sanitize b @ ''.png''
   \<and> length (sanitize a) = length a
   \<and> (\<forall>i<length a. sanitize a ! i = (if safe_char (a ! i) then a ! i else CHR ''_''))
   \<and> (generateFilename a b = generateFilename a d \<longleftrightarrow> sanitize b = sanitize d)
   \<and> (generateFilename a b = generateFilename c b \<longleftrightarrow> sanitize a = sanitize c)
   \<and> ((\<forall>ch\<in>set a \<union> set c. safe_char ch \<and> ch \<noteq> CHR ''_'') \<longrightarrow>
      (\<forall>ch\<in>set b \<union> set d. safe_char ch) \<longrightarrow>
      generateFilename a b = generateFilename c d \<longrightarrow> a = c \<and> b = d)"
proof (intro conjI impI)
  show "generateFilename a b = sanitize a @ ''__'' @ sanitize b @ ''.png''"
    by (simp add: generateFilename_def)
  show "length (sanitize a) = length a" by (rule sanitize_length)
  show "\<forall>i<length a. sanitize a ! i = (if safe_char (a ! i) then a ! i else CHR ''_'')"
    by (simp add: sanitize_def)
  show "generateFilename a b = generateFilename a d \<longleftrightarrow> sanitize b = sanitize d"
    by (simp add: generateFilename_def)
  show "generateFilename a b = generateFilename c b \<longleftrightarrow> sanitize a = sanitize c"
    by (simp add: generateFilename_def)
next
  assume ids: "\<forall>ch\<in>set a \<union> set c. safe_char ch \<and> ch \<noteq> CHR ''_''"
    and keys: "\<forall>ch\<in>set b \<union> set d. safe_char ch"
    and eq: "generateFilename a b = generateFilename c d"
  have sa: "sanitize a = a" and sc: "sanitize c = c"
    using ids by (auto intro: sanitize_safe)
  have sb: "sanitize b = b" and sd: "sanitize d = d"
    using keys by (auto intro: sanitize_safe)
  have "a @ CHR ''_'' # (CHR ''_'' # b @ ''.png'') = c @ CHR ''_'' # (CHR ''_'' # d @ ''.png'')"
    using eq by (simp add: generateFilename_def sa sb sc sd)
  moreover have "CHR ''_'' \<notin> set a" "CHR ''_'' \<notin> set c" using ids by auto
  ultimately have "a = c \<and> CHR ''_'' # b @ ''.png'' = CHR ''_'' # d @ ''.png''"
    by (rule split_at_first_underscore[rotated 2])
  then show "a = c" and "b = d" by simp_all
qed

theorem generateFilename_policy_witness:
  "generateFilename ''home'' ''desktop'' = sanitize ''home'' @ ''__'' @ sanitize ''desktop'' @ ''.png''
   \<and> generateFilename ''home'' ''desktop'' \<noteq> generateFilename ''home'' ''mobile''"
proof -
  have ids: "\<forall>ch\<in>set ''home'' \<union> set ''home''. safe_char ch \<and> ch \<noteq> CHR ''_''"
    by (simp add: safe_char_def)
  have keys: "\<forall>ch\<in>set ''desktop'' \<union> set ''mobile''. safe_char ch"
    by (simp add: safe_char_def)
  note pol = generateFilename_policy[of "''home''" "''desktop''" "''mobile''" "''home''"]
  note inj = pol[THEN conjunct2, THEN conjunct2, THEN conjunct2, THEN conjunct2, THEN conjunct2]
  have "generateFilename ''home'' ''desktop'' = generateFilename ''home'' ''mobile''
        \<longrightarrow> ''home'' = ''home'' \<and> ''desktop'' = ''mobile''"
    by (rule inj[THEN mp, OF ids, THEN mp, OF keys])
  then have "generateFilename ''home'' ''desktop'' \<noteq> generateFilename ''home'' ''mobile''"
    by auto
  with pol[THEN conjunct1] show ?thesis by (rule_tac conjI)
qed

subsection \<open>Pass criterion\<close>

lemma files_ensureDirectoryExists [simp]: "files (ensureDirectoryExists w d) = files w"
  by (simp add: ensureDirectoryExists_def)

lemma diffCalls_ensureDirectoryExists [simp]: "diffCalls (ensureDirectoryExists w d) = diffCalls w"
  by (simp add: ensureDirectoryExists_def)

text \<open>
  \<open>double_of\<close> is the rounding of IEEE 754: \<open>binade\<close> locates the leading bit, the result
  is within half a unit in the last place of the argument, and it is a multiple of that
  unit by an integer of at most 53 bits.
\<close>

lemma binade_bounds:
  assumes "0 < a"
  shows "2 powi (binade a) \<le> a \<and> a < 2 powi (binade a + 1)"
proof (cases "1 \<le> a")
  case True
  define n where "n = \<lfloor>a\<rfloor>"
  have n: "0 < n" using True by (simp add: n_def)
  from bitlen_bounds[OF n] have b: "2 ^ nat (bitlen n - 1) \<le> n" "n < 2 ^ nat (bitlen n)" by auto
  have b1: "1 \<le> bitlen n" using n by (simp add: bitlen_alt_def)
  have "real_of_int (2 ^ nat (bitlen n - 1)) \<le> real_of_int n" using b(1) of_int_le_iff by blast
  also have "\<dots> \<le> a" by (simp add: n_def)
  finally have lo: "2 ^ nat (bitlen n - 1) \<le> a" by simp
  have "n + 1 \<le> 2 ^ nat (bitlen n)" using b(2) by simp
  then have "real_of_int (n + 1) \<le> real_of_int (2 ^ nat (bitlen n))" using of_int_le_iff by blast
  moreover have "a < real_of_int (n + 1)" unfolding n_def by linarith
  ultimately have hi: "a < 2 ^ nat (bitlen n)" by simp
  show ?thesis using lo hi b1 True by (simp add: binade_def power_int_def n_def[symmetric])
next
  case False
  define k where "k = \<lceil>1 / a\<rceil> - 1"
  have inv: "1 < 1 / a" using False assms by simp
  have k: "0 < k" using inv unfolding k_def by linarith
  from bitlen_bounds[OF k] have b: "2 ^ nat (bitlen k - 1) \<le> k" "k < 2 ^ nat (bitlen k)" by auto
  have b1: "1 \<le> bitlen k" using k by (simp add: bitlen_alt_def)
  have "real_of_int (2 ^ nat (bitlen k - 1)) \<le> real_of_int k" using b(1) of_int_le_iff by blast
  also have "\<dots> < 1 / a" unfolding k_def by linarith
  finally have lo: "2 ^ nat (bitlen k - 1) < 1 / a" by simp
  have "k + 1 \<le> 2 ^ nat (bitlen k)" using b(2) by simp
  then have "real_of_int (k + 1) \<le> real_of_int (2 ^ nat (bitlen k))" using of_int_le_iff by blast
  moreover have "1 / a \<le> real_of_int (k + 1)" unfolding k_def by simp
  ultimately have hi: "1 / a \<le> 2 ^ nat (bitlen k)" by simp
  have A: "1 / 2 ^ nat (bitlen k) \<le> a"
    using hi assms by (simp add: field_simps)
  have B: "a < 1 / 2 ^ nat (bitlen k - 1)"
    using lo assms by (simp add: field_simps)
  show ?thesis
  proof (cases "bitlen k = 1")
    case True
    then show ?thesis using A B False
      by (simp add: binade_def power_int_def k_def[symmetric] inverse_eq_divide)
  next
    case F: False
    then have "1 < bitlen k" using b1 by simp
    then have "nat (bitlen k - 1) = nat (- (1 - bitlen k))" by simp
    then show ?thesis using A B False \<open>1 < bitlen k\<close>
      by (simp add: binade_def power_int_def k_def[symmetric] inverse_eq_divide power_one_over)
  qed
qed

lemma round_half_even_bounds: "\<lfloor>y\<rfloor> \<le> round_half_even y \<and> round_half_even y \<le> \<lceil>y\<rceil>"
proof -
  have "\<lfloor>y\<rfloor> + 1 \<le> \<lceil>y\<rceil>" if "y \<noteq> of_int \<lfloor>y\<rfloor>"
    using that by (metis ceiling_altdef order_refl)
  then show ?thesis
    unfolding round_half_even_def Let_def by auto
qed

lemma round_half_even_error: "\<bar>real_of_int (round_half_even y) - y\<bar> \<le> 1 / 2"
proof -
  have "real_of_int \<lfloor>y\<rfloor> \<le> y" "y < real_of_int \<lfloor>y\<rfloor> + 1" by linarith+
  then show ?thesis
    unfolding round_half_even_def Let_def by (auto simp: abs_le_iff)
qed

lemma ulp_pos [simp]: "0 < ulp x"
  by (simp add: ulp_def)

lemma ulp_nonneg [simp]: "0 \<le> ulp x"
  by (simp add: ulp_def)

lemma ulp_nonzero [simp]: "ulp x \<noteq> 0"
  by (simp add: ulp_def)

lemma double_of_zero [simp]: "double_of 0 = 0"
  by (simp add: double_of_def)

lemma double_of_nearest: "\<bar>double_of x - x\<bar> \<le> ulp x / 2"
proof (cases "x = 0")
  case True
  then show ?thesis by simp
next
  case False
  let ?a = "\<bar>x\<bar>"
  let ?r = "round_half_even (?a / ulp x)"
  have d: "double_of x = sgn x * (real_of_int ?r * ulp x)"
    using False by (simp add: double_of_def)
  have x: "x = sgn x * ?a" by (simp add: sgn_mult_abs)
  have "double_of x - x = sgn x * (real_of_int ?r * ulp x - ?a)"
    by (subst (2) x) (simp add: d algebra_simps)
  then have "\<bar>double_of x - x\<bar> = \<bar>real_of_int ?r * ulp x - ?a\<bar>"
    using False by (simp add: abs_mult abs_sgn_eq)
  also have "real_of_int ?r * ulp x - ?a = (real_of_int ?r - ?a / ulp x) * ulp x"
    by (simp add: field_simps)
  also have "\<bar>\<dots>\<bar> = \<bar>real_of_int ?r - ?a / ulp x\<bar> * ulp x"
    by (simp add: abs_mult)
  also have "\<dots> \<le> (1 / 2) * ulp x"
    using round_half_even_error[of "?a / ulp x"] by (intro mult_right_mono) auto
  finally show ?thesis by simp
qed

lemma double_of_significand: "\<exists>m. \<bar>m\<bar> \<le> 2 ^ 53 \<and> double_of x = real_of_int m * ulp x"
proof (cases "x = 0")
  case True
  then show ?thesis by (intro exI[of _ 0]) simp
next
  case False
  let ?a = "\<bar>x\<bar>"
  let ?e = "max (binade ?a) (- 1022)"
  let ?r = "round_half_even (?a / ulp x)"
  have "0 < ?a" using False by simp
  from binade_bounds[OF this] have "?a < 2 powi (binade ?a + 1)" by simp
  also have "\<dots> \<le> 2 powi (?e + 1)" by (intro power_int_increasing) auto
  also have "\<dots> = 2 powi 53 * ulp x"
    unfolding ulp_def by (subst power_int_add[symmetric]) (auto simp: algebra_simps)
  also have "(2::real) powi 53 = 2 ^ 53" by (simp add: power_int_def)
  finally have "?a / ulp x < 2 ^ 53" by (simp add: field_simps)
  then have "\<lceil>?a / ulp x\<rceil> \<le> 2 ^ 53" by (simp add: ceiling_le_iff)
  moreover have "0 \<le> \<lfloor>?a / ulp x\<rfloor>" by simp
  ultimately have "0 \<le> ?r" "?r \<le> 2 ^ 53"
    using round_half_even_bounds[of "?a / ulp x"] by linarith+
  define r where "r = ?r"
  have r: "0 \<le> r" "r \<le> 2 ^ 53"
    using \<open>0 \<le> ?r\<close> \<open>?r \<le> 2 ^ 53\<close> by (simp_all only: r_def)
  define m where "m = (if 0 < x then r else - r)"
  have "double_of x = real_of_int m * ulp x"
    using False by (simp add: double_of_def sgn_if m_def r_def)
  moreover have "\<bar>m\<bar> \<le> 2 ^ 53" using r by (simp add: m_def)
  ultimately show ?thesis by blast
qed

lemma js_div_zero [simp]: "js_div 0 b = 0"
  by (simp add: js_div_def)

lemma js_mul_zero [simp]: "js_mul 0 b = 0"
  by (simp add: js_mul_def)

text \<open>
  With a positive total, both revisions of \<open>evaluatePass\<close> decide by the count and by
  the quotient as JavaScript computes it.
\<close>

lemma evaluatePass_iff:
  assumes "0 < totalPixels"
  shows "evaluatePass cfg diffPixels diffPercentage totalPixels
           \<longleftrightarrow> diffPixels = 0 \<or> (real_of_int diffPixels \<le> maxDiffPixels cfg
                \<and> js_div (real_of_int diffPixels) (real_of_int totalPixels) \<le> maxDiffPixelRatio cfg)"
  using assms by (auto simp: evaluatePass_def ratio_exceeds_def)

lemma evaluatePass_odiff_iff:
  assumes "0 < totalPixels"
  shows "evaluatePass_odiff cfg diffPixels diffPercentage totalPixels
           \<longleftrightarrow> diffPixels = 0 \<or> (real_of_int diffPixels \<le> maxDiffPixels cfg
                \<and> js_div (real_of_int diffPixels) (real_of_int totalPixels) \<le> maxDiffPixelRatio cfg)"
  using assms by (auto simp: evaluatePass_odiff_def Let_def)

text \<open>
  Where the comparison reaches the pixel diff, the verdict of \<open>compareScreenshot\<close> is that
  of \<open>evaluatePass\<close>: in the pixelmatch revision on the count pixelmatch returns and the
  area of the image; in the ODiff revision on the count ODiff reports and the total that
  \<open>compare\<close> recovers from the percentage.
\<close>

lemma compareScreenshot_pixel_diff:
  assumes "files w (join np (baselineDir cfg) (baseline_filename scenarioId viewportKey)) = Some (PngFile b)"
    and "files w screenshotPath = Some (PngFile s)"
    and "png_width b = png_width s" "png_height b = png_height s"
    and "pixelmatch (png_data b) (png_data s)
           (join np (diffDir cfg) (baseline_filename scenarioId viewportKey) \<noteq> [])
           (png_width b) (png_height b) (threshold (comparison cfg)) = Inr (d, out)"
  shows "t_diffPixels (fst (compareScreenshot pixelmatch np cfg w scenarioId viewportKey screenshotPath))
           = Some d
       \<and> t_passed (fst (compareScreenshot pixelmatch np cfg w scenarioId viewportKey screenshotPath))
           = evaluatePass (comparison cfg) d
               (js_mul (js_div (real_of_int d) (real_of_int (int (png_width b * png_height b)))) 100)
               (int (png_width b * png_height b))"
  using assms
  by (simp add: compareScreenshot_def compare_def existsSync_def loadImage_def truthy_def Let_def)

lemma compareScreenshot_odiff_pixel_diff:
  assumes "files w (join np (baselineDir cfg) (baseline_filename scenarioId viewportKey)) = Some fb"
    and "files w screenshotPath = Some fs"
    and "odiff (Some fb) (Some fs) (threshold (comparison cfg)) = (Inr (PixelDiff d pct), written)"
  shows "t_diffPixels (fst (compareScreenshot_odiff odiff np cfg w scenarioId viewportKey screenshotPath))
           = Some d
       \<and> t_passed (fst (compareScreenshot_odiff odiff np cfg w scenarioId viewportKey screenshotPath))
           = evaluatePass_odiff (comparison cfg) d pct
               (c_totalPixels (fst (compare_odiff odiff np cfg w
                  (join np (baselineDir cfg) (baseline_filename scenarioId viewportKey)) screenshotPath
                  (Some (join np (diffDir cfg) (baseline_filename scenarioId viewportKey))))))"
  using assms
  by (cases "d = 0")
     (simp_all add: compareScreenshot_odiff_def compare_odiff_def existsSync_def Let_def
        evaluatePass_odiff_def)

text \<open>
  C1 (as stated): the result passes if and only if the diff count is 0, or it is within
  \<open>maxDiffPixels\<close> and the ratio diffCount/totalCount is within \<open>maxDiffPixelRatio\<close>.  The
  code compares the quotient after rounding it to a double.  With \<open>maxDiffPixelRatio\<close>
  0.3333333333333333 and one differing pixel of three the comparison passes, although
  a third is more than the threshold; so do both revisions of \<open>evaluatePass\<close> on 1000
  differing pixels of 3000.
\<close>

theorem compareScreenshot_pass_exact_ratio_fails:
  "files world_one_of_three ''./baselines/home__desktop.png'' = Some (PngFile image_1x3)
   \<and> files world_one_of_three ''./screenshots/home__desktop.png'' = Some (PngFile image_1x3_changed)
   \<and> png_width image_1x3 * png_height image_1x3 = 3
   \<and> t_passed (fst (compareScreenshot example_pixelmatch example_path third_config
        world_one_of_three ''home'' ''desktop'' ''./screenshots/home__desktop.png''))
   \<and> t_diffPixels (fst (compareScreenshot example_pixelmatch example_path third_config
        world_one_of_three ''home'' ''desktop'' ''./screenshots/home__desktop.png'')) = Some 1
   \<and> \<not> ((1::real) / 3 \<le> maxDiffPixelRatio (comparison third_config))
   \<and> evaluatePass (comparison third_config) 1000 (js_mul (js_div 1000 3000) 100) 3000
   \<and> evaluatePass_odiff (comparison third_config) 1000 (js_mul (js_div 1000 3000) 100) 3000
   \<and> \<not> ((1000::real) / 3000 \<le> maxDiffPixelRatio (comparison third_config))"
proof -
  have r: "maxDiffPixelRatio (comparison third_config) = 6004799503160661 / 18014398509481984"
    unfolding third_config_def by simp code_simp
  have m: "maxDiffPixels (comparison third_config) = 1000"
    by (simp add: third_config_def)
  have q1: "js_div 1 3 = 6004799503160661 / 18014398509481984"
    by code_simp
  have q2: "js_div 1000 3000 = 6004799503160661 / 18014398509481984"
    by code_simp
  have b: "files world_one_of_three
          (join example_path (baselineDir third_config) (baseline_filename ''home'' ''desktop''))
          = Some (PngFile image_1x3)"
    by (simp add: world_one_of_three_def example_path_def third_config_def baseline_filename_def)
  have s: "files world_one_of_three ''./screenshots/home__desktop.png''
          = Some (PngFile image_1x3_changed)"
    by (simp add: world_one_of_three_def)
  have pm: "example_pixelmatch (png_data image_1x3) (png_data image_1x3_changed)
              (join example_path (diffDir third_config) (baseline_filename ''home'' ''desktop'') \<noteq> [])
              (png_width image_1x3) (png_height image_1x3) (threshold (comparison third_config))
            = Inr (1, png_data image_1x3)"
    by (simp add: example_pixelmatch_def count_differing_def image_1x3_def image_1x3_changed_def
          example_path_def)
  have dims: "png_width image_1x3 = png_width image_1x3_changed"
    "png_height image_1x3 = png_height image_1x3_changed"
    by (simp_all add: image_1x3_def image_1x3_changed_def)
  have a: "png_width image_1x3 * png_height image_1x3 = 3"
    by (simp add: image_1x3_def)
  from compareScreenshot_pixel_diff[where pixelmatch = example_pixelmatch and d = 1
         and out = "png_data image_1x3", OF b s dims pm]
  have "t_diffPixels (fst (compareScreenshot example_pixelmatch example_path third_config
          world_one_of_three ''home'' ''desktop'' ''./screenshots/home__desktop.png'')) = Some 1"
    and "t_passed (fst (compareScreenshot example_pixelmatch example_path third_config
          world_one_of_three ''home'' ''desktop'' ''./screenshots/home__desktop.png''))"
    by (simp_all add: a evaluatePass_iff r m q1)
  moreover have "files world_one_of_three ''./baselines/home__desktop.png'' = Some (PngFile image_1x3)"
    by (simp add: world_one_of_three_def)
  moreover have "evaluatePass (comparison third_config) 1000 (js_mul (js_div 1000 3000) 100) 3000"
    "evaluatePass_odiff (comparison third_config) 1000 (js_mul (js_div 1000 3000) 100) 3000"
    by (simp_all add: evaluatePass_iff evaluatePass_odiff_iff r m q2)
  ultimately show ?thesis using s a by (simp add: r)
qed

text \<open>
  C1 (amended): when baseline and candidate are images of equal dimensions and of a
  positive area below \<open>2^53\<close>, \<open>compareScreenshot\<close> passes if and only if the diff count is
  0, or it is within \<open>maxDiffPixels\<close> and the quotient diffCount/totalCount, rounded to
  the nearest double as JavaScript computes it, is within \<open>maxDiffPixelRatio\<close>.  In the
  pixelmatch revision the total is the area of the image; in the ODiff revision it is
  the total that \<open>compare\<close> recovers from the percentage ODiff reports, where that is
  positive and below \<open>2^53\<close>.
\<close>

theorem compareScreenshot_pass_criterion:
  assumes b: "files w (join np (baselineDir cfg) (baseline_filename scenarioId viewportKey))
                = Some (PngFile b)"
    and s: "files w screenshotPath = Some (PngFile s)"
    and dims: "png_width b = png_width s" "png_height b = png_height s"
    and area: "0 < png_width b * png_height b" "png_width b * png_height b < 2 ^ 53"
  shows "(\<forall>d out.
            pixelmatch (png_data b) (png_data s)
              (join np (diffDir cfg) (baseline_filename scenarioId viewportKey) \<noteq> [])
              (png_width b) (png_height b) (threshold (comparison cfg)) = Inr (d, out)
            \<longrightarrow> t_diffPixels (fst (compareScreenshot pixelmatch np cfg w scenarioId viewportKey
                    screenshotPath)) = Some d
              \<and> (t_passed (fst (compareScreenshot pixelmatch np cfg w scenarioId viewportKey
                    screenshotPath))
                 \<longleftrightarrow> d = 0 \<or> (real_of_int d \<le> maxDiffPixels (comparison cfg)
                       \<and> js_div (real_of_int d) (real (png_width b * png_height b))
                           \<le> maxDiffPixelRatio (comparison cfg))))
       \<and> (\<forall>d pct written total.
            odiff (Some (PngFile b)) (Some (PngFile s)) (threshold (comparison cfg))
              = (Inr (PixelDiff d pct), written)
            \<and> total = c_totalPixels (fst (compare_odiff odiff np cfg w
                  (join np (baselineDir cfg) (baseline_filename scenarioId viewportKey)) screenshotPath
                  (Some (join np (diffDir cfg) (baseline_filename scenarioId viewportKey)))))
            \<and> 0 < total \<and> total < 2 ^ 53
            \<longrightarrow> t_diffPixels (fst (compareScreenshot_odiff odiff np cfg w scenarioId viewportKey
                    screenshotPath)) = Some d
              \<and> (t_passed (fst (compareScreenshot_odiff odiff np cfg w scenarioId viewportKey
                    screenshotPath))
                 \<longleftrightarrow> d = 0 \<or> (real_of_int d \<le> maxDiffPixels (comparison cfg)
                       \<and> js_div (real_of_int d) (real_of_int total)
                           \<le> maxDiffPixelRatio (comparison cfg))))"
proof (intro conjI allI impI)
  fix d out
  assume pm: "pixelmatch (png_data b) (png_data s)
              (join np (diffDir cfg) (baseline_filename scenarioId viewportKey) \<noteq> [])
              (png_width b) (png_height b) (threshold (comparison cfg)) = Inr (d, out)"
  have pos: "0 < int (png_width b * png_height b)" using area(1) by simp
  note r = compareScreenshot_pixel_diff[where pixelmatch = pixelmatch and d = d and out = out,
               OF b s dims pm]
  show "t_diffPixels (fst (compareScreenshot pixelmatch np cfg w scenarioId viewportKey
          screenshotPath)) = Some d"
    using r by simp
  show "t_passed (fst (compareScreenshot pixelmatch np cfg w scenarioId viewportKey screenshotPath))
        \<longleftrightarrow> d = 0 \<or> (real_of_int d \<le> maxDiffPixels (comparison cfg)
              \<and> js_div (real_of_int d) (real (png_width b * png_height b))
                  \<le> maxDiffPixelRatio (comparison cfg))"
    using r evaluatePass_iff[OF pos] by simp
next
  fix d pct written total
  assume h: "odiff (Some (PngFile b)) (Some (PngFile s)) (threshold (comparison cfg))
              = (Inr (PixelDiff d pct), written)
            \<and> total = c_totalPixels (fst (compare_odiff odiff np cfg w
                  (join np (baselineDir cfg) (baseline_filename scenarioId viewportKey)) screenshotPath
                  (Some (join np (diffDir cfg) (baseline_filename scenarioId viewportKey)))))
            \<and> 0 < total \<and> total < 2 ^ 53"
  then have od: "odiff (Some (PngFile b)) (Some (PngFile s)) (threshold (comparison cfg))
              = (Inr (PixelDiff d pct), written)"
    and pos: "0 < total" by simp_all
  note r = compareScreenshot_odiff_pixel_diff[where odiff = odiff and d = d and pct = pct
               and written = written, OF b s od]
  show "t_diffPixels (fst (compareScreenshot_odiff odiff np cfg w scenarioId viewportKey
          screenshotPath)) = Some d"
    using r by simp
  show "t_passed (fst (compareScreenshot_odiff odiff np cfg w scenarioId viewportKey screenshotPath))
        \<longleftrightarrow> d = 0 \<or> (real_of_int d \<le> maxDiffPixels (comparison cfg)
              \<and> js_div (real_of_int d) (real_of_int total) \<le> maxDiffPixelRatio (comparison cfg))"
    using r h evaluatePass_odiff_iff[OF pos] by simp
qed

theorem compareScreenshot_pass_criterion_witness:
  "t_passed (fst (compareScreenshot example_pixelmatch example_path third_config
        world_one_of_three ''home'' ''desktop'' ''./screenshots/home__desktop.png''))
   \<and> \<not> t_passed (fst (compareScreenshot example_pixelmatch example_path quarter_config
        world_one_of_three ''home'' ''desktop'' ''./screenshots/home__desktop.png''))
   \<and> t_passed (fst (compareScreenshot_odiff example_odiff example_path third_config
        world_one_of_three ''home'' ''desktop'' ''./screenshots/home__desktop.png''))
   \<and> \<not> t_passed (fst (compareScreenshot_odiff example_odiff example_path quarter_config
        world_one_of_three ''home'' ''desktop'' ''./screenshots/home__desktop.png''))"
proof -
  let ?sp = "''./screenshots/home__desktop.png''"
  have q: "js_div 1 3 = 6004799503160661 / 18014398509481984"
    by code_simp
  have t: "js_round (js_div 1 (js_div (js_div (js_mul 100 1) 3) 100)) = 3"
    by code_simp
  have p: "0 < js_div (js_mul 100 1) 3"
    by code_simp
  have s: "files world_one_of_three ?sp = Some (PngFile image_1x3_changed)"
    by (simp add: world_one_of_three_def)
  have dims: "png_width image_1x3 = png_width image_1x3_changed"
    "png_height image_1x3 = png_height image_1x3_changed"
    by (simp_all add: image_1x3_def image_1x3_changed_def)
  have area: "0 < png_width image_1x3 * png_height image_1x3"
    "png_width image_1x3 * png_height image_1x3 < 2 ^ 53"
    by (simp_all add: image_1x3_def)
  have a: "png_width image_1x3 * png_height image_1x3 = 3"
    by (simp add: image_1x3_def)
  have c: "count_differing (png_data image_1x3) (png_data image_1x3_changed) = 1"
    by (simp add: count_differing_def image_1x3_def image_1x3_changed_def)
  have ne: "png_data image_1x3 \<noteq> png_data image_1x3_changed"
    by (simp add: image_1x3_def image_1x3_changed_def)
  have "t_passed (fst (compareScreenshot example_pixelmatch example_path cfg
            world_one_of_three ''home'' ''desktop'' ?sp))
          = (js_div 1 3 \<le> maxDiffPixelRatio (comparison cfg))
       \<and> t_passed (fst (compareScreenshot_odiff example_odiff example_path cfg
            world_one_of_three ''home'' ''desktop'' ?sp))
          = (js_div 1 3 \<le> maxDiffPixelRatio (comparison cfg))"
    if dirs: "baselineDir cfg = ''./baselines''" "diffDir cfg = ''./diffs''"
      and m: "maxDiffPixels (comparison cfg) = 1000" for cfg
  proof -
    let ?bp = "join example_path (baselineDir cfg) (baseline_filename ''home'' ''desktop'')"
    let ?dp = "join example_path (diffDir cfg) (baseline_filename ''home'' ''desktop'')"
    have b: "files world_one_of_three ?bp = Some (PngFile image_1x3)"
      by (simp add: world_one_of_three_def example_path_def dirs baseline_filename_def)
    have pm: "example_pixelmatch (png_data image_1x3) (png_data image_1x3_changed) (?dp \<noteq> [])
                (png_width image_1x3) (png_height image_1x3) (threshold (comparison cfg))
              = Inr (1, png_data image_1x3)"
      using c by (simp add: example_pixelmatch_def image_1x3_def image_1x3_changed_def
            example_path_def)
    have od: "example_odiff (Some (PngFile image_1x3)) (Some (PngFile image_1x3_changed))
                (threshold (comparison cfg))
              = (Inr (PixelDiff 1 (js_div (js_mul 100 1) 3)), Some (PngFile image_1x3))"
      using c ne dims a by (simp add: example_odiff_def)
    have tot: "c_totalPixels (fst (compare_odiff example_odiff example_path cfg world_one_of_three
                 ?bp ?sp (Some ?dp))) = 3"
      using b s od t p by (simp add: compare_odiff_def existsSync_def Let_def)
    note crit = compareScreenshot_pass_criterion[where pixelmatch = example_pixelmatch
        and odiff = example_odiff, OF b s dims area]
    from crit[THEN conjunct1, rule_format, OF pm]
    have p1: "t_passed (fst (compareScreenshot example_pixelmatch example_path cfg
            world_one_of_three ''home'' ''desktop'' ?sp))
          = (js_div 1 3 \<le> maxDiffPixelRatio (comparison cfg))"
      by (simp add: a m)
    from crit[THEN conjunct2, rule_format, of 1 "js_div (js_mul 100 1) 3" "Some (PngFile image_1x3)" 3]
    have p2: "t_passed (fst (compareScreenshot_odiff example_odiff example_path cfg
            world_one_of_three ''home'' ''desktop'' ?sp))
          = (js_div 1 3 \<le> maxDiffPixelRatio (comparison cfg))"
      using od tot by (simp add: m)
    from p1 p2 show ?thesis by simp
  qed
  note w = this
  have r3: "maxDiffPixelRatio (comparison third_config) = 6004799503160661 / 18014398509481984"
    unfolding third_config_def by simp code_simp
  have r4: "maxDiffPixelRatio (comparison quarter_config) = 1 / 4"
    by (simp add: quarter_config_def)
  have c3: "baselineDir third_config = ''./baselines''" "diffDir third_config = ''./diffs''"
    "maxDiffPixels (comparison third_config) = 1000"
    by (simp_all add: third_config_def)
  have c4: "baselineDir quarter_config = ''./baselines''" "diffDir quarter_config = ''./diffs''"
    "maxDiffPixels (comparison quarter_config) = 1000"
    by (simp_all add: quarter_config_def)
  show ?thesis
    using w[OF c3] w[OF c4] by (simp add: q r3 r4)
qed

subsection \<open>Retry wrapper\<close>

lemma captureWithRetry_loop_exit:
  "maxRetries cfg < attempt \<Longrightarrow>
   captureWithRetry_loop cfg capture attempt lastError evs
     = (Inl (case lastError of Some e \<Rightarrow> e | None \<Rightarrow> ErrorObj ''Screenshot capture failed''), evs)"
  by (subst captureWithRetry_loop.simps) simp

lemma captureWithRetry_loop_fail:
  "attempt \<le> maxRetries cfg \<Longrightarrow> capture (nat attempt) = Inl e \<Longrightarrow>
   captureWithRetry_loop cfg capture attempt lastError evs
     = captureWithRetry_loop cfg capture (attempt + 1) (Some (toError e))
         (evs @ [CaptureAttempt] @ (if attempt < maxRetries cfg then [Delay (retryDelay cfg)] else []))"
  by (subst captureWithRetry_loop.simps) (simp add: Let_def)

lemma captureWithRetry_loop_success:
  "attempt \<le> maxRetries cfg \<Longrightarrow> capture (nat attempt) = Inr path \<Longrightarrow>
   captureWithRetry_loop cfg capture attempt lastError evs = (Inr path, evs @ [CaptureAttempt])"
  by (subst captureWithRetry_loop.simps) simp

lemma captureWithRetry_loop_all_fail:
  assumes fails: "\<forall>k. capture k = Inl (err k)"
  shows "0 \<le> attempt \<Longrightarrow> attempt \<le> maxRetries cfg \<Longrightarrow> n = nat (maxRetries cfg - attempt) \<Longrightarrow>
         captureWithRetry_loop cfg capture attempt lastError evs
           = (Inl (toError (err (nat (maxRetries cfg)))),
              evs @ concat (replicate n [CaptureAttempt, Delay (retryDelay cfg)]) @ [CaptureAttempt])"
proof (induction n arbitrary: attempt lastError evs)
  case 0
  then have eq: "attempt = maxRetries cfg" by simp
  have c: "capture (nat attempt) = Inl (err (nat attempt))"
    using fails by simp
  have "captureWithRetry_loop cfg capture attempt lastError evs
          = captureWithRetry_loop cfg capture (attempt + 1) (Some (toError (err (nat attempt))))
              (evs @ [CaptureAttempt])"
    using captureWithRetry_loop_fail[of attempt cfg capture "err (nat attempt)" lastError evs] "0.prems"(2) c eq
    by simp
  also have "\<dots> = (Inl (toError (err (nat attempt))), evs @ [CaptureAttempt])"
    using eq by (simp add: captureWithRetry_loop_exit)
  finally show ?case using eq by simp
next
  case (Suc n)
  then have lt: "attempt < maxRetries cfg" by simp
  have c: "capture (nat attempt) = Inl (err (nat attempt))" using fails by simp
  have n: "n = nat (maxRetries cfg - (attempt + 1))" using Suc.prems by simp
  have "captureWithRetry_loop cfg capture attempt lastError evs
          = captureWithRetry_loop cfg capture (attempt + 1) (Some (toError (err (nat attempt))))
              (evs @ [CaptureAttempt, Delay (retryDelay cfg)])"
    using captureWithRetry_loop_fail[of attempt cfg capture "err (nat attempt)" lastError evs] Suc.prems(2) c lt
    by simp
  also have "\<dots> = (Inl (toError (err (nat (maxRetries cfg)))),
               (evs @ [CaptureAttempt, Delay (retryDelay cfg)])
               @ concat (replicate n [CaptureAttempt, Delay (retryDelay cfg)]) @ [CaptureAttempt])"
    using Suc.prems lt by (intro Suc.IH n) simp_all
  finally show ?case by simp
qed

lemma count_attempts:
  "length (filter (\<lambda>e. e = CaptureAttempt)
     (concat (replicate n [CaptureAttempt, Delay d]))) = n"
  by (induction n) simp_all

lemma count_delays:
  "length (filter (\<lambda>e. e \<noteq> CaptureAttempt)
     (concat (replicate n [CaptureAttempt, Delay d]))) = n"
  by (induction n) simp_all

text \<open>
  C5: with \<open>maxRetries \<ge> 0\<close> and a capture that fails on every call,
  \<open>captureWithRetry\<close> makes \<open>1 + maxRetries\<close> calls, waits \<open>retryDelay\<close> between
  consecutive calls (and not after the last), and throws the error of the last call
  (as an \<open>Error\<close> object: a thrown value that is not one is replaced).
\<close>

theorem captureWithRetry_exhaustion:
  assumes "0 \<le> maxRetries cfg" and "\<forall>k. capture k = Inl (err k)"
  shows "captureWithRetry cfg capture
           = (Inl (toError (err (nat (maxRetries cfg)))),
              concat (replicate (nat (maxRetries cfg)) [CaptureAttempt, Delay (retryDelay cfg)])
              @ [CaptureAttempt])
         \<and> int (length (filter (\<lambda>e. e = CaptureAttempt) (snd (captureWithRetry cfg capture))))
             = 1 + maxRetries cfg
         \<and> int (length (filter (\<lambda>e. e \<noteq> CaptureAttempt) (snd (captureWithRetry cfg capture))))
             = maxRetries cfg
         \<and> (\<forall>m. err (nat (maxRetries cfg)) = ErrorObj m
               \<longrightarrow> fst (captureWithRetry cfg capture) = Inl (ErrorObj m))"
proof -
  have r: "captureWithRetry cfg capture
           = (Inl (toError (err (nat (maxRetries cfg)))),
              concat (replicate (nat (maxRetries cfg)) [CaptureAttempt, Delay (retryDelay cfg)])
              @ [CaptureAttempt])"
    unfolding captureWithRetry_def
    using captureWithRetry_loop_all_fail[OF assms(2), of 0 cfg "nat (maxRetries cfg)" None "[]"] assms(1)
    by simp
  show ?thesis
    using assms(1) by (simp add: r count_attempts count_delays toError_def)
qed

theorem captureWithRetry_exhaustion_witness:
  "0 \<le> maxRetries \<lparr>maxRetries = 2, retryDelay = 1000\<rparr>
   \<and> captureWithRetry \<lparr>maxRetries = 2, retryDelay = 1000\<rparr> (\<lambda>k. Inl (ErrorObj ''Timeout 30000ms exceeded''))
       = (Inl (ErrorObj ''Timeout 30000ms exceeded''),
          [CaptureAttempt, Delay 1000, CaptureAttempt, Delay 1000, CaptureAttempt])"
  using captureWithRetry_exhaustion[of "\<lparr>maxRetries = 2, retryDelay = 1000\<rparr>"
          "\<lambda>k. Inl (ErrorObj ''Timeout 30000ms exceeded'')" "\<lambda>k. ErrorObj ''Timeout 30000ms exceeded''"]
  by (simp add: toError_def numeral_2_eq_2)

subsection \<open>Interaction executor\<close>

lemma executeInteractions_append:
  "executeInteractions pg evs (xs @ ys)
     = (case executeInteractions pg evs xs of
          (Some err, evs') \<Rightarrow> (Some err, evs')
        | (None, evs') \<Rightarrow> executeInteractions pg evs' ys)"
  by (induction xs arbitrary: evs) (auto split: prod.splits option.splits)

lemma dispatch_unknown:
  "\<not> known_type (itype i) \<Longrightarrow>
   dispatch pg evs i = (None, evs @ [Warn (''Unknown interaction type: '' @ itype i)])"
  by (simp add: dispatch_def known_type_def)

text \<open>
  C9: an interaction of unknown type makes no page call and raises nothing: it logs one
  warning, the wait after the interaction applies as for every type other than \<open>wait\<close>,
  and the loop goes on with the interactions that follow, in order.
\<close>

theorem executeInteractions_unknown_skipped:
  assumes "\<not> known_type (itype i)"
  shows "dispatch pg evs1 i = (None, evs1 @ [Warn (''Unknown interaction type: '' @ itype i)])
         \<and> (executeInteractions pg evs pre = (None, evs1) \<longrightarrow>
              executeInteractions pg evs (pre @ i # rest)
                = executeInteractions pg
                    (settle (evs1 @ [Warn (''Unknown interaction type: '' @ itype i)]) i) rest)"
  using assms by (simp add: executeInteractions_append dispatch_unknown)

theorem executeInteractions_unknown_skipped_witness:
  "\<not> known_type (itype \<lparr>itype = ''scroll'', selector = ''#top'', ivalue = None, wait_ms = Some 50\<rparr>)
   \<and> executeInteractions (\<lambda>evs ev. None) []
        [\<lparr>itype = ''click'', selector = ''#menu'', ivalue = None, wait_ms = None\<rparr>,
         \<lparr>itype = ''scroll'', selector = ''#top'', ivalue = None, wait_ms = Some 50\<rparr>,
         \<lparr>itype = ''mouseover'', selector = ''#item'', ivalue = None, wait_ms = None\<rparr>]
      = (None, [Click ''#menu'', Warn ''Unknown interaction type: scroll'', WaitForTimeout 50,
                Hover ''#item''])"
proof -
  have u: "\<not> known_type (itype \<lparr>itype = ''scroll'', selector = ''#top'', ivalue = None, wait_ms = Some 50\<rparr>)"
    by (simp add: known_type_def)
  have pre: "executeInteractions (\<lambda>evs ev. None) []
               [\<lparr>itype = ''click'', selector = ''#menu'', ivalue = None, wait_ms = None\<rparr>]
             = (None, [Click ''#menu''])"
    by (simp add: dispatch_def perform_def settle_def)
  show ?thesis
    using executeInteractions_unknown_skipped[OF u, of "\<lambda>evs ev. None" "[Click ''#menu'']" "[]"
            "[\<lparr>itype = ''click'', selector = ''#menu'', ivalue = None, wait_ms = None\<rparr>]"
            "[\<lparr>itype = ''mouseover'', selector = ''#item'', ivalue = None, wait_ms = None\<rparr>]"]
          pre u
    by (simp add: dispatch_def perform_def settle_def)
qed

subsection \<open>Domain substitution\<close>

lemma js_trim_blank: "js_trim s = [] \<longleftrightarrow> (\<forall>c\<in>set s. js_whitespace c)"
proof
  assume "js_trim s = []"
  then have all: "\<forall>c\<in>set (dropWhile js_whitespace s). js_whitespace c"
    by (simp add: js_trim_def dropWhile_eq_Nil_conv)
  have "dropWhile js_whitespace s = []"
  proof (rule ccontr)
    assume ne: "dropWhile js_whitespace s \<noteq> []"
    then have "\<not> js_whitespace (hd (dropWhile js_whitespace s))" by (rule hd_dropWhile)
    moreover have "hd (dropWhile js_whitespace s) \<in> set (dropWhile js_whitespace s)"
      using ne by simp
    ultimately show False using all by blast
  qed
  then show "\<forall>c\<in>set s. js_whitespace c" by (simp add: dropWhile_eq_Nil_conv)
next
  assume "\<forall>c\<in>set s. js_whitespace c"
  then show "js_trim s = []"
    by (auto simp: js_trim_def dropWhile_eq_Nil_conv dest: set_dropWhileD)
qed

lemma strip_trailing_slashes_decomp:
  "\<exists>k. s = strip_trailing_slashes s @ replicate k (CHR ''/'')"
proof -
  have "rev s = takeWhile (\<lambda>c. c = CHR ''/'') (rev s) @ dropWhile (\<lambda>c. c = CHR ''/'') (rev s)"
    by simp
  then have "s = rev (dropWhile (\<lambda>c. c = CHR ''/'') (rev s)) @ rev (takeWhile (\<lambda>c. c = CHR ''/'') (rev s))"
    by (metis rev_append rev_rev_ident)
  moreover have "takeWhile (\<lambda>c. c = CHR ''/'') (rev s)
      = replicate (length (takeWhile (\<lambda>c. c = CHR ''/'') (rev s))) (CHR ''/'')"
    by (rule replicate_length_same[symmetric]) (auto dest: set_takeWhileD)
  ultimately show ?thesis
    unfolding strip_trailing_slashes_def by (metis rev_replicate)
qed

lemma strip_trailing_slashes_last:
  "strip_trailing_slashes s = [] \<or> last (strip_trailing_slashes s) \<noteq> CHR ''/''"
  unfolding strip_trailing_slashes_def
  by (cases "dropWhile (\<lambda>c. c = CHR ''/'') (rev s)")
     (auto simp: last_rev dest: dropWhile_eq_Cons_conv[THEN iffD1])

text \<open>
  C10: \<open>replaceDomain\<close> returns the original URL when the new domain is null, undefined,
  empty or all whitespace, or when the original URL does not parse; otherwise it returns
  the new domain without its trailing slashes (what is left does not end in a slash),
  followed by the pathname, search and hash of the parsed original URL, unchanged.
\<close>

theorem replaceDomain_spec:
  "(newDomain = None \<or> (\<exists>nd. newDomain = Some nd \<and> (\<forall>c\<in>set nd. js_whitespace c))
      \<or> parseURL originalUrl = None
      \<longrightarrow> replaceDomain parseURL originalUrl newDomain = originalUrl)
   \<and> (\<forall>nd u. newDomain = Some nd \<and> \<not> (\<forall>c\<in>set nd. js_whitespace c) \<and> parseURL originalUrl = Some u
      \<longrightarrow> replaceDomain parseURL originalUrl newDomain
            = strip_trailing_slashes nd @ pathname u @ search u @ hash u
          \<and> (\<exists>k. nd = strip_trailing_slashes nd @ replicate k (CHR ''/''))
          \<and> (strip_trailing_slashes nd = [] \<or> last (strip_trailing_slashes nd) \<noteq> CHR ''/''))"
  using strip_trailing_slashes_decomp strip_trailing_slashes_last
  by (auto simp: replaceDomain_def js_trim_blank split: option.splits)

theorem replaceDomain_spec_witness:
  "replaceDomain example_parseURL ''https://local.site/page?foo=bar#section'' None
     = ''https://local.site/page?foo=bar#section''
   \<and> replaceDomain example_parseURL ''not a url'' (Some ''https://prod.site'') = ''not a url''
   \<and> replaceDomain example_parseURL ''https://local.site/page?foo=bar#section'' (Some ''https://prod.site//'')
     = ''https://prod.site/page?foo=bar#section''"
proof -
  have ws: "\<not> (\<forall>c\<in>set ''https://prod.site//''. js_whitespace c)"
    by (simp add: js_whitespace_def)
  have strip: "strip_trailing_slashes ''https://prod.site//'' = ''https://prod.site''"
    by (simp add: strip_trailing_slashes_def)
  have p: "example_parseURL ''https://local.site/page?foo=bar#section''
             = Some \<lparr>pathname = ''/page'', search = ''?foo=bar'', hash = ''#section''\<rparr>"
    by (simp add: example_parseURL_def)
  have q: "example_parseURL ''not a url'' = None"
    by (simp add: example_parseURL_def)
  show ?thesis
    using replaceDomain_spec[of None example_parseURL "''https://local.site/page?foo=bar#section''"]
          replaceDomain_spec[of "Some ''https://prod.site''" example_parseURL "''not a url''"]
          replaceDomain_spec[of "Some ''https://prod.site//''" example_parseURL
             "''https://local.site/page?foo=bar#section''"]
          ws p q
    by (simp add: strip)
qed

subsection \<open>Comparison service\<close>

text \<open>
  C4: when the baseline file of the key does not exist, \<open>compareScreenshot\<close> (either
  revision) returns a failing result whose error is the baseline-not-found message, and
  leaves the world as it was: no file is read and the pixel diff is not called.
\<close>

theorem compareScreenshot_baseline_missing:
  assumes "files w (join np (baselineDir cfg) (baseline_filename scenarioId viewportKey)) = None"
  shows "compareScreenshot pixelmatch np cfg w scenarioId viewportKey screenshotPath
           = (\<lparr>t_scenarioId = scenarioId, t_scenarioTitle = scenarioId, t_scenarioUrl = None,
               t_viewport = viewportKey, t_passed = False, t_diffPixels = None,
               t_diffPercentage = None,
               t_error = Some ''Baseline not found. Run generate-baseline first.'',
               t_warning = None, t_screenshotPath = Some screenshotPath,
               t_baselinePath = Some (join np (baselineDir cfg) (baseline_filename scenarioId viewportKey)),
               t_diffPath = None\<rparr>, w)
         \<and> compareScreenshot_odiff odiff np cfg w scenarioId viewportKey screenshotPath
           = (\<lparr>t_scenarioId = scenarioId, t_scenarioTitle = scenarioId, t_scenarioUrl = Some [],
               t_viewport = viewportKey, t_passed = False, t_diffPixels = None,
               t_diffPercentage = None,
               t_error = Some ''Baseline not found. Run generate-baseline first.'',
               t_warning = None, t_screenshotPath = Some screenshotPath,
               t_baselinePath = Some (join np (baselineDir cfg) (baseline_filename scenarioId viewportKey)),
               t_diffPath = None\<rparr>, w)
         \<and> diffCalls (snd (compareScreenshot pixelmatch np cfg w scenarioId viewportKey screenshotPath))
             = diffCalls w
         \<and> diffCalls (snd (compareScreenshot_odiff odiff np cfg w scenarioId viewportKey screenshotPath))
             = diffCalls w"
  using assms by (simp add: compareScreenshot_def compareScreenshot_odiff_def existsSync_def Let_def)

lemma compare_odiff_layout:
  assumes "files w baselinePath = Some fb" "files w screenshotPath = Some fs"
    and "fst (odiff (Some fb) (Some fs) (threshold (comparison cfg))) = Inr LayoutDiff"
  shows "fst (compare_odiff odiff np cfg w baselinePath screenshotPath diffPath)
           = \<lparr>c_passed = True, c_diffPixels = 0, c_diffPercentage = 0, c_totalPixels = 0,
               c_diffPath = None, c_error = None, c_warning = Some ''dimension-mismatch''\<rparr>"
  using assms
  by (cases "odiff (Some fb) (Some fs) (threshold (comparison cfg))")
     (simp add: compare_odiff_def existsSync_def Let_def)

lemma compare_odiff_match:
  assumes "files w baselinePath = Some fb" "files w screenshotPath = Some fs"
    and "fst (odiff (Some fb) (Some fs) (threshold (comparison cfg))) = Inr Match"
  shows "fst (compare_odiff odiff np cfg w baselinePath screenshotPath diffPath)
           = \<lparr>c_passed = True, c_diffPixels = 0, c_diffPercentage = 0, c_totalPixels = 0,
               c_diffPath = None, c_error = None, c_warning = None\<rparr>"
  using assms
  by (cases "odiff (Some fb) (Some fs) (threshold (comparison cfg))")
     (simp add: compare_odiff_def existsSync_def Let_def)

text \<open>
  The pixelmatch revision (src/services/comparison.ts, lines 73-81) reports a dimension
  mismatch as a failure with diff count -1 and diff percentage 100, and has no warning.
\<close>

lemma compare_dimension_mismatch:
  assumes "files w baselinePath = Some (PngFile b)" "files w screenshotPath = Some (PngFile s)"
    and "png_width b \<noteq> png_width s \<or> png_height b \<noteq> png_height s"
  shows "compare pixelmatch np cfg w baselinePath screenshotPath diffPath
           = (Inr \<lparr>c_passed = False, c_diffPixels = -1, c_diffPercentage = 100,
                   c_totalPixels = int (png_width b * png_height b),
                   c_diffPath = None, c_error = None, c_warning = None\<rparr>, w)"
  using assms by (auto simp: compare_def existsSync_def loadImage_def)

lemma compareScreenshot_pixelmatch_dimension_mismatch:
  assumes "files w (join np (baselineDir cfg) (baseline_filename scenarioId viewportKey)) = Some (PngFile b)"
    and "files w screenshotPath = Some (PngFile s)"
    and "png_width b \<noteq> png_width s \<or> png_height b \<noteq> png_height s"
  shows "\<not> t_passed (fst (compareScreenshot pixelmatch np cfg w scenarioId viewportKey screenshotPath))
       \<and> t_diffPercentage (fst (compareScreenshot pixelmatch np cfg w scenarioId viewportKey screenshotPath))
           = Some 100
       \<and> t_diffPixels (fst (compareScreenshot pixelmatch np cfg w scenarioId viewportKey screenshotPath))
           = Some (- 1)
       \<and> t_warning (fst (compareScreenshot pixelmatch np cfg w scenarioId viewportKey screenshotPath)) = None"
  using assms
  by (simp add: compareScreenshot_def existsSync_def Let_def compare_dimension_mismatch)

text \<open>
  C2 (as stated): every \<open>compareScreenshot\<close> passes a dimension mismatch with a warning.
  This fails for the pixelmatch revision: with a baseline of 1 x 1 and a candidate of
  1 x 2 pixels it returns a failure with diff percentage 100 and no warning.
\<close>

theorem compareScreenshot_pixelmatch_mismatch_fails:
  "files world_mismatch ''./baselines/home__desktop.png'' = Some (PngFile image_1x1)
   \<and> files world_mismatch ''./screenshots/home__desktop.png'' = Some (PngFile image_1x2)
   \<and> png_width image_1x1 = png_width image_1x2
   \<and> png_height image_1x1 \<noteq> png_height image_1x2
   \<and> \<not> t_passed (fst (compareScreenshot example_pixelmatch example_path example_config
          world_mismatch ''home'' ''desktop'' ''./screenshots/home__desktop.png''))
   \<and> t_diffPixels (fst (compareScreenshot example_pixelmatch example_path example_config
          world_mismatch ''home'' ''desktop'' ''./screenshots/home__desktop.png'')) = Some (- 1)
   \<and> t_diffPercentage (fst (compareScreenshot example_pixelmatch example_path example_config
          world_mismatch ''home'' ''desktop'' ''./screenshots/home__desktop.png'')) = Some 100
   \<and> t_warning (fst (compareScreenshot example_pixelmatch example_path example_config
          world_mismatch ''home'' ''desktop'' ''./screenshots/home__desktop.png'')) = None"
proof -
  have b: "files world_mismatch
          (join example_path (baselineDir example_config) (baseline_filename ''home'' ''desktop''))
          = Some (PngFile image_1x1)"
    by (simp add: world_mismatch_def example_path_def example_config_def baseline_filename_def)
  have s: "files world_mismatch ''./screenshots/home__desktop.png'' = Some (PngFile image_1x2)"
    by (simp add: world_mismatch_def)
  have d: "png_width image_1x1 \<noteq> png_width image_1x2 \<or> png_height image_1x1 \<noteq> png_height image_1x2"
    by (simp add: image_1x1_def image_1x2_def)
  have "files world_mismatch ''./baselines/home__desktop.png'' = Some (PngFile image_1x1)"
    by (simp add: world_mismatch_def)
  moreover have "png_width image_1x1 = png_width image_1x2"
    and "png_height image_1x1 \<noteq> png_height image_1x2"
    by (simp_all add: image_1x1_def image_1x2_def)
  ultimately show ?thesis
    using compareScreenshot_pixelmatch_dimension_mismatch[OF b s d, of example_pixelmatch] s
    by simp
qed

text \<open>
  C2 (amended): when baseline and candidate are images that differ in width or height,
  \<open>compareScreenshot\<close> of the ODiff revision returns a passing result with the warning
  \<open>dimension-mismatch\<close>, diff count 0 and diff percentage 0, and no error.
\<close>

theorem compareScreenshot_dimension_mismatch:
  assumes "odiff_layout_contract odiff"
    and "files w (join np (baselineDir cfg) (baseline_filename scenarioId viewportKey)) = Some (PngFile b)"
    and "files w screenshotPath = Some (PngFile s)"
    and "png_width b \<noteq> png_width s \<or> png_height b \<noteq> png_height s"
  shows "t_passed (fst (compareScreenshot_odiff odiff np cfg w scenarioId viewportKey screenshotPath))
       \<and> t_warning (fst (compareScreenshot_odiff odiff np cfg w scenarioId viewportKey screenshotPath))
           = Some ''dimension-mismatch''
       \<and> t_error (fst (compareScreenshot_odiff odiff np cfg w scenarioId viewportKey screenshotPath)) = None
       \<and> t_diffPixels (fst (compareScreenshot_odiff odiff np cfg w scenarioId viewportKey screenshotPath))
           = Some 0
       \<and> t_diffPercentage (fst (compareScreenshot_odiff odiff np cfg w scenarioId viewportKey screenshotPath))
           = Some 0"
proof -
  let ?bp = "join np (baselineDir cfg) (baseline_filename scenarioId viewportKey)"
  let ?dp = "join np (diffDir cfg) (baseline_filename scenarioId viewportKey)"
  have "fst (odiff (Some (PngFile b)) (Some (PngFile s)) (threshold (comparison cfg))) = Inr LayoutDiff"
    using assms(1,4) unfolding odiff_layout_contract_def by blast
  then have "fst (compare_odiff odiff np cfg w ?bp screenshotPath (Some ?dp))
           = \<lparr>c_passed = True, c_diffPixels = 0, c_diffPercentage = 0, c_totalPixels = 0,
               c_diffPath = None, c_error = None, c_warning = Some ''dimension-mismatch''\<rparr>"
    using assms(2,3) by (rule compare_odiff_layout[rotated 2])
  then show ?thesis
    using assms(2)
    by (cases "compare_odiff odiff np cfg w ?bp screenshotPath (Some ?dp)")
       (simp add: compareScreenshot_odiff_def existsSync_def Let_def)
qed

lemma compare_identical:
  assumes "files w baselinePath = Some (PngFile img)" "files w screenshotPath = Some (PngFile img)"
    and "pixelmatch (png_data img) (png_data img) (truthy diffPath) (png_width img) (png_height img)
           (threshold (comparison cfg)) = Inr (0, out)"
  shows "fst (compare pixelmatch np cfg w baselinePath screenshotPath diffPath)
           = Inr \<lparr>c_passed = True, c_diffPixels = 0, c_diffPercentage = 0,
                  c_totalPixels = int (png_width img * png_height img),
                  c_diffPath = None, c_error = None, c_warning = None\<rparr>"
  using assms by (simp add: compare_def existsSync_def loadImage_def Let_def evaluatePass_def)

lemma copyToBaseline_files:
  assumes "copyToBaseline np cfg w screenshotPath scenarioId viewportKey = Inr (bp, w1)"
    and "files w screenshotPath = Some f"
  shows "bp = join np (baselineDir cfg) (baseline_filename scenarioId viewportKey)
       \<and> files w1 bp = Some f \<and> files w1 screenshotPath = Some f"
  using assms
  by (auto simp: copyToBaseline_def copyFileSync_def Let_def split: option.splits)

text \<open>
  C7: after \<open>copyToBaseline\<close> has copied a candidate image, \<open>compareScreenshot\<close> of the
  same key and candidate passes with diff count 0, in both revisions, given that the
  diff primitive finds no difference between an image and itself.
\<close>

theorem copyToBaseline_roundtrip:
  assumes copy: "copyToBaseline np cfg w screenshotPath scenarioId viewportKey = Inr (bp, w1)"
    and png: "files w screenshotPath = Some (PngFile img)"
    and pm: "pixelmatch (png_data img) (png_data img)
               (join np (diffDir cfg) (baseline_filename scenarioId viewportKey) \<noteq> [])
               (png_width img) (png_height img) (threshold (comparison cfg)) = Inr (0, out)"
    and od: "fst (odiff (Some (PngFile img)) (Some (PngFile img)) (threshold (comparison cfg))) = Inr Match"
  shows "t_passed (fst (compareScreenshot pixelmatch np cfg w1 scenarioId viewportKey screenshotPath))
       \<and> t_diffPixels (fst (compareScreenshot pixelmatch np cfg w1 scenarioId viewportKey screenshotPath))
           = Some 0
       \<and> t_passed (fst (compareScreenshot_odiff odiff np cfg w1 scenarioId viewportKey screenshotPath))
       \<and> t_diffPixels (fst (compareScreenshot_odiff odiff np cfg w1 scenarioId viewportKey screenshotPath))
           = Some 0"
proof -
  let ?bp = "join np (baselineDir cfg) (baseline_filename scenarioId viewportKey)"
  let ?dp = "join np (diffDir cfg) (baseline_filename scenarioId viewportKey)"
  from copyToBaseline_files[OF copy png]
  have b: "files w1 ?bp = Some (PngFile img)" and s: "files w1 screenshotPath = Some (PngFile img)"
    by auto
  have pm': "pixelmatch (png_data img) (png_data img) (truthy (Some ?dp)) (png_width img) (png_height img)
               (threshold (comparison cfg)) = Inr (0, out)"
    using pm by (simp add: truthy_def)
  have c1: "fst (compare pixelmatch np cfg w1 ?bp screenshotPath (Some ?dp))
           = Inr \<lparr>c_passed = True, c_diffPixels = 0, c_diffPercentage = 0,
                  c_totalPixels = int (png_width img * png_height img),
                  c_diffPath = None, c_error = None, c_warning = None\<rparr>"
    using b s pm' by (rule compare_identical)
  have c2: "fst (compare_odiff odiff np cfg w1 ?bp screenshotPath (Some ?dp))
           = \<lparr>c_passed = True, c_diffPixels = 0, c_diffPercentage = 0, c_totalPixels = 0,
               c_diffPath = None, c_error = None, c_warning = None\<rparr>"
    using b s od by (rule compare_odiff_match)
  have r1: "t_passed (fst (compareScreenshot pixelmatch np cfg w1 scenarioId viewportKey screenshotPath))
       \<and> t_diffPixels (fst (compareScreenshot pixelmatch np cfg w1 scenarioId viewportKey screenshotPath))
           = Some 0"
    using b c1
    by (cases "compare pixelmatch np cfg w1 ?bp screenshotPath (Some ?dp)")
       (simp add: compareScreenshot_def existsSync_def Let_def)
  have r2: "t_passed (fst (compareScreenshot_odiff odiff np cfg w1 scenarioId viewportKey screenshotPath))
       \<and> t_diffPixels (fst (compareScreenshot_odiff odiff np cfg w1 scenarioId viewportKey screenshotPath))
           = Some 0"
    using b c2
    by (cases "compare_odiff odiff np cfg w1 ?bp screenshotPath (Some ?dp)")
       (simp add: compareScreenshot_odiff_def existsSync_def Let_def)
  from r1 r2 show ?thesis by simp
qed

subsection \<open>Worker pool\<close>

lemma held_all_update:
  "i < length ws \<Longrightarrow> held_all (ws[i := w]) + held (ws ! i) = held_all ws + held w"
proof (induction ws arbitrary: i)
  case Nil
  then show ?case by simp
next
  case (Cons a ws)
  then show ?case
    by (cases i) (auto simp: held_all_def)
qed

lemma held_all_update_idle:
  "i < length ws \<Longrightarrow> held (ws ! i) = {#} \<Longrightarrow> held_all (ws[i := w]) = held_all ws + held w"
  using held_all_update[of i ws w] by simp

lemma held_all_update_running:
  "i < length ws \<Longrightarrow> ws ! i = Running k \<Longrightarrow> held w = {#} \<Longrightarrow>
   held_all (ws[i := w]) + {#k#} = held_all ws"
  using held_all_update[of i ws w] by simp

lemma set_update_Finished:
  "Finished \<in> set (ws[i := w]) \<Longrightarrow> w \<noteq> Finished \<Longrightarrow> Finished \<in> set ws"
  by (metis in_set_conv_nth length_list_update nth_list_update_eq nth_list_update_neq)

lemma count_update:
  "i < length ws \<Longrightarrow>
   length (filter P (ws[i := w])) + (if P (ws ! i) then 1 else 0)
     = length (filter P ws) + (if P w then 1 else 0)"
proof (induction ws arbitrary: i)
  case Nil
  then show ?case by simp
next
  case (Cons a ws)
  then show ?case by (cases i) auto
qed

lemma pool_inv_start: "pool_inv runTask tasks initial (start_pool n tasks initial)"
proof -
  have "held_all (replicate k Ready) = {#}" for k
    by (induction k) (simp_all add: held_all_def)
  then show ?thesis
    by (simp add: pool_inv_def start_pool_def Let_def)
qed

lemma pool_inv_step:
  assumes "pool_inv runTask tasks initial s"
  shows "pool_inv runTask tasks initial (worker_step runTask tasks i s)"
proof (cases "i < length (workers s)")
  case False
  then show ?thesis using assms by (simp add: worker_step_def)
next
  case True
  show ?thesis
  proof (cases "workers s ! i")
    case Ready
    then have h: "held (workers s ! i) = {#}" by simp
    show ?thesis
    proof (cases "taskIndex s < length tasks")
      case lt: True
      have upd: "held_all ((workers s)[i := Running (taskIndex s)]) = held_all (workers s) + {#taskIndex s#}"
        using held_all_update_idle[OF True h, of "Running (taskIndex s)"] by simp
      have fin: "Finished \<notin> set (workers s)" using assms lt by (auto simp: pool_inv_def)
      have fin': "Finished \<notin> set ((workers s)[i := Running (taskIndex s)])"
        using fin set_update_Finished by fastforce
      have cnt: "length (filter (\<lambda>w. w = Finished) ((workers s)[i := Running (taskIndex s)]))
                   = length (filter (\<lambda>w. w = Finished) (workers s))"
        using count_update[OF True, of "\<lambda>w. w = Finished" "Running (taskIndex s)"] Ready by simp
      show ?thesis
        using assms True Ready lt fin'
        by (auto simp: pool_inv_def worker_step_def Let_def upd cnt take_Suc_conv_app_nth)
    next
      case ge: False
      have upd: "held_all ((workers s)[i := Finished]) = held_all (workers s)"
        using held_all_update_idle[OF True h, of Finished] by simp
      have cnt: "length (filter (\<lambda>w. w = Finished) ((workers s)[i := Finished]))
                   = Suc (length (filter (\<lambda>w. w = Finished) (workers s)))"
        using count_update[OF True, of "\<lambda>w. w = Finished" Finished] Ready by simp
      show ?thesis
        using assms True Ready ge
        by (auto simp: pool_inv_def worker_step_def Let_def upd cnt)
    qed
  next
    case (Running k)
    have upd: "held_all ((workers s)[i := Ready]) + {#k#} = held_all (workers s)"
      using held_all_update_running[OF True Running, of Ready] by simp
    have fin: "Finished \<in> set ((workers s)[i := Ready]) \<Longrightarrow> Finished \<in> set (workers s)"
      using set_update_Finished by fastforce
    have sub: "\<forall>j \<in># held_all ((workers s)[i := Ready]). j < length tasks"
      using assms upd by (metis pool_inv_def union_iff)
    have res: "mset (results s) + {#runTask (tasks ! k)#}
                 + image_mset (\<lambda>i. runTask (tasks ! i)) (held_all ((workers s)[i := Ready]))
               = mset initial + mset (map runTask (take (taskIndex s) tasks))"
    proof -
      have "image_mset (\<lambda>i. runTask (tasks ! i)) (held_all (workers s))
              = image_mset (\<lambda>i. runTask (tasks ! i)) (held_all ((workers s)[i := Ready]))
                + {#runTask (tasks ! k)#}"
        by (subst upd[symmetric]) simp
      then show ?thesis using assms by (simp add: pool_inv_def ac_simps)
    qed
    have cnt: "Suc (completedCount s) + size (held_all ((workers s)[i := Ready]))
                 = min (taskIndex s) (length tasks)"
    proof -
      have "size (held_all (workers s)) = Suc (size (held_all ((workers s)[i := Ready])))"
        by (subst upd[symmetric]) simp
      then show ?thesis using assms by (simp add: pool_inv_def)
    qed
    have fcnt: "length (filter (\<lambda>w. w = Finished) ((workers s)[i := Ready]))
                   = length (filter (\<lambda>w. w = Finished) (workers s))"
      using count_update[OF True, of "\<lambda>w. w = Finished" Ready] Running by simp
    show ?thesis
      using True Running fin sub res cnt fcnt assms
      by (auto simp: pool_inv_def worker_step_def)
  next
    case Finished
    then show ?thesis using assms True by (simp add: worker_step_def)
  qed
qed

lemma pool_inv_run:
  "pool_inv runTask tasks initial s \<Longrightarrow> pool_inv runTask tasks initial (run_pool runTask tasks schedule s)"
  unfolding run_pool_def
  by (induction schedule arbitrary: s) (simp_all add: pool_inv_step)

lemma length_workers_step [simp]:
  "length (workers (worker_step runTask tasks i s)) = length (workers s)"
  by (auto simp: worker_step_def Let_def split: wstate.splits)

lemma length_workers_run [simp]:
  "length (workers (run_pool runTask tasks schedule s)) = length (workers s)"
  unfolding run_pool_def
  by (induction schedule arbitrary: s) simp_all

lemma held_all_finished: "list_all (\<lambda>w. w = Finished) ws \<Longrightarrow> held_all ws = {#}"
  by (induction ws) (auto simp: held_all_def)

text \<open>
  The pool cannot run forever: each step of a worker that has not finished lowers
  \<open>pool_measure\<close>, and while the pool has not finished such a worker exists.
\<close>

lemma worker_pool_progress:
  assumes "pool_inv runTask tasks initial s" and "i < length (workers s)"
    and "workers s ! i \<noteq> Finished"
  shows "pool_measure tasks (worker_step runTask tasks i s) < pool_measure tasks s"
proof (cases "workers s ! i")
  case Ready
  then have h: "held (workers s ! i) = {#}" by simp
  have "length (filter (\<lambda>w. w = Finished) (workers s)) < length (workers s)"
    using assms(2) Ready
    by (metis (mono_tags, lifting) length_filter_less nth_mem wstate.distinct(3))
  then have room: "taskIndex s < length tasks + length (workers s)"
    using assms(1) by (auto simp: pool_inv_def)
  show ?thesis
  proof (cases "taskIndex s < length tasks")
    case True
    have "held_all ((workers s)[i := Running (taskIndex s)]) = held_all (workers s) + {#taskIndex s#}"
      using held_all_update_idle[OF assms(2) h, of "Running (taskIndex s)"] by simp
    then show ?thesis
      using Ready assms(2) True room by (simp add: pool_measure_def worker_step_def Let_def)
  next
    case False
    have "held_all ((workers s)[i := Finished]) = held_all (workers s)"
      using held_all_update_idle[OF assms(2) h, of Finished] by simp
    then show ?thesis
      using Ready assms(2) False room by (simp add: pool_measure_def worker_step_def Let_def)
  qed
next
  case (Running k)
  have "held_all ((workers s)[i := Ready]) + {#k#} = held_all (workers s)"
    using held_all_update_running[OF assms(2) Running, of Ready] by simp
  then have "size (held_all (workers s)) = Suc (size (held_all ((workers s)[i := Ready])))"
    by (metis size_add_mset add_mset_add_single)
  then show ?thesis
    using Running assms(2) by (simp add: pool_measure_def worker_step_def)
next
  case Finished
  then show ?thesis using assms(3) by simp
qed

lemma unfinished_worker:
  "\<not> all_finished s \<Longrightarrow> \<exists>i < length (workers s). workers s ! i \<noteq> Finished"
  by (auto simp: all_finished_def list_all_length)

text \<open>
  C3: with at least one worker and a non-empty task list, when every worker has left
  its loop the task indices taken are exactly \<open>0, \<dots>, N - 1\<close>, each once, the results
  pushed are one per task (as a multiset: the order depends on the schedule), and the
  completed count is \<open>N\<close>; this holds for every schedule.
\<close>

theorem worker_pool_exactly_once:
  assumes "1 \<le> configuredWorkers" and "tasks \<noteq> []"
    and "s = run_pool runTask tasks schedule (start_pool configuredWorkers tasks initial)"
    and "all_finished s"
  shows "mset (results s) = mset initial + mset (map runTask tasks)
         \<and> claimed s = [0..<length tasks]
         \<and> completedCount s = length tasks"
proof -
  have inv: "pool_inv runTask tasks initial s"
    using assms(3) by (simp add: pool_inv_run pool_inv_start)
  have len: "length (workers s) = min configuredWorkers (length tasks)"
    using assms(3) by (simp add: start_pool_def Let_def)
  then have "workers s \<noteq> []" using assms(1,2) by (cases tasks) auto
  then obtain w ws where ws: "workers s = w # ws" by (cases "workers s") auto
  then have "Finished \<in> set (workers s)" using assms(4) by (simp add: all_finished_def)
  then have ge: "length tasks \<le> taskIndex s" using inv by (simp add: pool_inv_def)
  have h: "held_all (workers s) = {#}"
    using assms(4) by (simp add: all_finished_def held_all_finished)
  show ?thesis using inv ge h by (simp add: pool_inv_def)
qed

subsection \<open>Lazy-load scroll step\<close>

lemma timer_callback_stop:
  "now k - startTime > maxScrollTime \<or> scrolled \<ge> maxScrollHeight \<Longrightarrow>
   timer_callback now scrollHeight startTime k scrolled calls
     = \<lparr>callbacks = k + 1, totalHeight = scrolled, window_calls = calls @ [ScrollTo 0 0]\<rparr>"
  by (subst timer_callback.simps) auto

lemma timer_callback_covered:
  "\<not> now k - startTime > maxScrollTime \<Longrightarrow> \<not> scrolled \<ge> maxScrollHeight \<Longrightarrow>
   scrolled + distance \<ge> scrollHeight k \<Longrightarrow>
   timer_callback now scrollHeight startTime k scrolled calls
     = \<lparr>callbacks = k + 1, totalHeight = scrolled + distance,
        window_calls = calls @ [ScrollBy 0 distance] @ [ScrollTo 0 0]\<rparr>"
  by (subst timer_callback.simps) (simp add: Let_def)

lemma timer_callback_continue:
  "\<not> now k - startTime > maxScrollTime \<Longrightarrow> \<not> scrolled \<ge> maxScrollHeight \<Longrightarrow>
   \<not> scrolled + distance \<ge> scrollHeight k \<Longrightarrow>
   timer_callback now scrollHeight startTime k scrolled calls
     = timer_callback now scrollHeight startTime (k + 1) (scrolled + distance)
         (calls @ [ScrollBy 0 distance])"
  by (subst timer_callback.simps) (simp add: Let_def)

lemma timer_callback_props:
  "scrolled = distance * int k \<Longrightarrow> calls = replicate k (ScrollBy 0 distance) \<Longrightarrow>
   scrolled < maxScrollHeight + distance \<Longrightarrow>
   r = timer_callback now scrollHeight startTime k scrolled calls \<Longrightarrow>
   (\<exists>n. totalHeight r = distance * int n
         \<and> window_calls r = replicate n (ScrollBy 0 distance) @ [ScrollTo 0 0]
         \<and> callbacks r \<le> n + 1 \<and> n \<le> callbacks r)
   \<and> totalHeight r < maxScrollHeight + distance
   \<and> stop_reason now scrollHeight startTime r"
proof (induction now scrollHeight startTime k scrolled calls arbitrary: r rule: timer_callback.induct)
  case (1 now scrollHeight startTime k scrolled calls)
  consider (stop) "now k - startTime > maxScrollTime \<or> scrolled \<ge> maxScrollHeight"
    | (covered) "\<not> now k - startTime > maxScrollTime" "\<not> scrolled \<ge> maxScrollHeight"
        "scrolled + distance \<ge> scrollHeight k"
    | (continue) "\<not> now k - startTime > maxScrollTime" "\<not> scrolled \<ge> maxScrollHeight"
        "\<not> scrolled + distance \<ge> scrollHeight k"
    by blast
  then show ?case
  proof cases
    case stop
    have r: "r = \<lparr>callbacks = k + 1, totalHeight = scrolled, window_calls = calls @ [ScrollTo 0 0]\<rparr>"
      using "1.prems"(4) stop by (simp add: timer_callback_stop)
    have "\<exists>n. totalHeight r = distance * int n
         \<and> window_calls r = replicate n (ScrollBy 0 distance) @ [ScrollTo 0 0]
         \<and> callbacks r \<le> n + 1 \<and> n \<le> callbacks r"
      using r "1.prems"(1,2) by (intro exI[of _ k]) simp
    moreover have "stop_reason now scrollHeight startTime r"
      using stop r by (auto simp: stop_reason_def)
    ultimately show ?thesis using r "1.prems"(3) by simp
  next
    case covered
    have r: "r = \<lparr>callbacks = k + 1, totalHeight = scrolled + distance,
        window_calls = calls @ [ScrollBy 0 distance] @ [ScrollTo 0 0]\<rparr>"
      using "1.prems"(4) covered by (simp add: timer_callback_covered)
    have "\<exists>n. totalHeight r = distance * int n
         \<and> window_calls r = replicate n (ScrollBy 0 distance) @ [ScrollTo 0 0]
         \<and> callbacks r \<le> n + 1 \<and> n \<le> callbacks r"
      using r "1.prems"(1,2)
      by (intro exI[of _ "Suc k"]) (simp add: algebra_simps replicate_append_same)
    moreover have "stop_reason now scrollHeight startTime r"
      using covered r by (auto simp: stop_reason_def)
    ultimately show ?thesis using r covered(2) by simp
  next
    case continue
    have r: "r = timer_callback now scrollHeight startTime (k + 1) (scrolled + distance)
         (calls @ [ScrollBy 0 distance])"
      using "1.prems"(4) continue by (simp add: timer_callback_continue)
    show ?thesis
    proof (rule "1.IH"[OF _ _ refl refl _ _ _ _ r])
      show "\<not> maxScrollTime < now k - startTime" by (rule continue(1))
      show "\<not> maxScrollHeight \<le> scrolled" by (rule continue(2))
      show "\<not> scrollHeight k \<le> scrolled + distance" by (rule continue(3))
      show "scrolled + distance = distance * int (k + 1)"
        using "1.prems"(1) by (simp add: algebra_simps)
      show "calls @ [ScrollBy 0 distance] = replicate (k + 1) (ScrollBy 0 distance)"
        using "1.prems"(2) by (simp add: replicate_append_same)
      show "scrolled + distance < maxScrollHeight + distance"
        using continue(2) by simp
    qed
  qed
qed

text \<open>
  The revision without the timeout and the ceiling (src/services/screenshot.ts, lines
  81-100) does not stop on a page that grows as fast as it is scrolled.
\<close>

lemma timer_callback_unbounded_growing:
  "scrolled = distance * int k \<Longrightarrow>
   timer_callback_unbounded fuel growing_page k scrolled calls = None"
proof (induction fuel arbitrary: k scrolled calls)
  case 0
  then show ?case by simp
next
  case (Suc fuel)
  have step: "scrolled + distance = distance * int (k + 1)"
    using Suc.prems by (simp add: algebra_simps)
  have "\<not> scrolled + distance \<ge> growing_page k"
    using Suc.prems by (simp add: growing_page_def distance_def)
  then have "timer_callback_unbounded (Suc fuel) growing_page k scrolled calls
        = timer_callback_unbounded fuel growing_page (k + 1) (scrolled + distance)
            (calls @ [ScrollBy 0 distance])"
    by (simp add: Let_def)
  also have "\<dots> = None" by (rule Suc.IH[OF step])
  finally show ?case .
qed

text \<open>
  C8 (as stated): every revision of the scroll step stops within a bound on every page.
  This fails for the revision without the timeout and the ceiling: on the page that
  grows by 300 px at every tick its timer is still running after any number of callbacks.
\<close>

theorem triggerLazyLoading_unbounded_runs_on:
  "\<forall>fuel. timer_callback_unbounded fuel growing_page 0 0 [] = None"
  by (simp add: timer_callback_unbounded_growing)

text \<open>
  C8 (amended): in the revision with the timeout and the ceiling, for every page and
  clock the scroll step stops within 168 timer callbacks, after at most 167 scrolls of
  300 px (at most 50100 px); it stops because the timeout has elapsed, the ceiling is
  reached or the document height is covered; and its last call scrolls back to the top.
\<close>

theorem triggerLazyLoading_bounded:
  "callbacks (triggerLazyLoading now scrollHeight startTime) \<le> 168
   \<and> totalHeight (triggerLazyLoading now scrollHeight startTime) \<le> 50100
   \<and> (\<exists>n \<le> 167. window_calls (triggerLazyLoading now scrollHeight startTime)
                      = replicate n (ScrollBy 0 300) @ [ScrollTo 0 0])
   \<and> last (window_calls (triggerLazyLoading now scrollHeight startTime)) = ScrollTo 0 0
   \<and> stop_reason now scrollHeight startTime (triggerLazyLoading now scrollHeight startTime)"
proof -
  let ?r = "triggerLazyLoading now scrollHeight startTime"
  have "(\<exists>n. totalHeight ?r = distance * int n
         \<and> window_calls ?r = replicate n (ScrollBy 0 distance) @ [ScrollTo 0 0]
         \<and> callbacks ?r \<le> n + 1 \<and> n \<le> callbacks ?r)
   \<and> totalHeight ?r < maxScrollHeight + distance
   \<and> stop_reason now scrollHeight startTime ?r"
    by (rule timer_callback_props[of 0 0 "[]"])
       (simp_all add: triggerLazyLoading_def maxScrollHeight_def distance_def)
  then obtain n where n: "totalHeight ?r = 300 * int n"
      "window_calls ?r = replicate n (ScrollBy 0 300) @ [ScrollTo 0 0]"
      "callbacks ?r \<le> n + 1"
    and lt: "totalHeight ?r < 50300"
    and sr: "stop_reason now scrollHeight startTime ?r"
    by (auto simp: distance_def maxScrollHeight_def)
  have n167: "n \<le> 167" using n(1) lt by linarith
  then have "totalHeight ?r \<le> 50100" using n(1) by linarith
  moreover have "callbacks ?r \<le> 168" using n(3) n167 by linarith
  moreover have "last (window_calls ?r) = ScrollTo 0 0" using n(2) by simp
  ultimately show ?thesis using n(2) n167 sr by blast
qed

subsection \<open>Concrete runs\<close>

theorem compareScreenshot_baseline_missing_witness:
  "\<not> t_passed (fst (compareScreenshot example_pixelmatch example_path example_config
        world_candidate_only ''home'' ''desktop'' ''./screenshots/home__desktop.png''))
   \<and> t_error (fst (compareScreenshot example_pixelmatch example_path example_config
        world_candidate_only ''home'' ''desktop'' ''./screenshots/home__desktop.png''))
       = Some ''Baseline not found. Run generate-baseline first.''
   \<and> snd (compareScreenshot_odiff example_odiff example_path example_config
        world_candidate_only ''home'' ''desktop'' ''./screenshots/home__desktop.png'')
       = world_candidate_only"
proof -
  have "files world_candidate_only
          (join example_path (baselineDir example_config) (baseline_filename ''home'' ''desktop'')) = None"
    by (simp add: world_candidate_only_def example_path_def example_config_def baseline_filename_def)
  from compareScreenshot_baseline_missing[OF this, of example_pixelmatch
         "''./screenshots/home__desktop.png''" example_odiff]
  show ?thesis by simp
qed

lemma example_odiff_contract: "odiff_layout_contract example_odiff"
  by (simp add: odiff_layout_contract_def example_odiff_def)

theorem compareScreenshot_dimension_mismatch_witness:
  "t_passed (fst (compareScreenshot_odiff example_odiff example_path example_config
        world_mismatch ''home'' ''desktop'' ''./screenshots/home__desktop.png''))
   \<and> t_warning (fst (compareScreenshot_odiff example_odiff example_path example_config
        world_mismatch ''home'' ''desktop'' ''./screenshots/home__desktop.png''))
       = Some ''dimension-mismatch''"
proof -
  have b: "files world_mismatch
          (join example_path (baselineDir example_config) (baseline_filename ''home'' ''desktop''))
          = Some (PngFile image_1x1)"
    by (simp add: world_mismatch_def example_path_def example_config_def baseline_filename_def)
  have s: "files world_mismatch ''./screenshots/home__desktop.png'' = Some (PngFile image_1x2)"
    by (simp add: world_mismatch_def)
  have d: "png_width image_1x1 \<noteq> png_width image_1x2 \<or> png_height image_1x1 \<noteq> png_height image_1x2"
    by (simp add: image_1x1_def image_1x2_def)
  from compareScreenshot_dimension_mismatch[OF example_odiff_contract b s d]
  show ?thesis by simp
qed

theorem copyToBaseline_roundtrip_witness:
  "(case copyToBaseline example_path example_config world_candidate_only
           ''./screenshots/home__desktop.png'' ''home'' ''desktop'' of
      Inl e \<Rightarrow> False
    | Inr (bp, w1) \<Rightarrow>
        bp = ''./baselines/home__desktop.png''
        \<and> t_passed (fst (compareScreenshot example_pixelmatch example_path example_config w1
             ''home'' ''desktop'' ''./screenshots/home__desktop.png''))
        \<and> t_diffPixels (fst (compareScreenshot example_pixelmatch example_path example_config w1
             ''home'' ''desktop'' ''./screenshots/home__desktop.png'')) = Some 0
        \<and> t_passed (fst (compareScreenshot_odiff example_odiff example_path example_config w1
             ''home'' ''desktop'' ''./screenshots/home__desktop.png''))
        \<and> t_diffPixels (fst (compareScreenshot_odiff example_odiff example_path example_config w1
             ''home'' ''desktop'' ''./screenshots/home__desktop.png'')) = Some 0)"
proof -
  obtain w1 where copy: "copyToBaseline example_path example_config world_candidate_only
           ''./screenshots/home__desktop.png'' ''home'' ''desktop''
         = Inr (''./baselines/home__desktop.png'', w1)"
    by (simp add: copyToBaseline_def copyFileSync_def Let_def world_candidate_only_def
          ensureDirectoryExists_def example_path_def example_config_def baseline_filename_def)
  have png: "files world_candidate_only ''./screenshots/home__desktop.png'' = Some (PngFile image_1x2)"
    by (simp add: world_candidate_only_def)
  have pm: "example_pixelmatch (png_data image_1x2) (png_data image_1x2)
               (join example_path (diffDir example_config) (baseline_filename ''home'' ''desktop'') \<noteq> [])
               (png_width image_1x2) (png_height image_1x2) (threshold (comparison example_config))
            = Inr (0, png_data image_1x2)"
    by (simp add: example_pixelmatch_def count_differing_def image_1x2_def example_path_def)
  have od: "fst (example_odiff (Some (PngFile image_1x2)) (Some (PngFile image_1x2))
                  (threshold (comparison example_config))) = Inr Match"
    by (simp add: example_odiff_def)
  from copyToBaseline_roundtrip[where pixelmatch = example_pixelmatch and odiff = example_odiff
         and img = image_1x2 and out = "png_data image_1x2", OF copy png pm od]
  show ?thesis by (simp add: copy)
qed

theorem worker_pool_exactly_once_witness:
  "all_finished (run_pool (captureTask example_capture) example_tasks [0, 1, 1, 0, 0, 1, 1]
       (start_pool 2 example_tasks []))
   \<and> map r_index (results (run_pool (captureTask example_capture) example_tasks [0, 1, 1, 0, 0, 1, 1]
       (start_pool 2 example_tasks []))) = [1, 0]
   \<and> mset (results (run_pool (captureTask example_capture) example_tasks [0, 1, 1, 0, 0, 1, 1]
       (start_pool 2 example_tasks [])))
       = mset (map (captureTask example_capture) example_tasks)
   \<and> claimed (run_pool (captureTask example_capture) example_tasks [0, 1, 1, 0, 0, 1, 1]
       (start_pool 2 example_tasks [])) = [0, 1]"
proof -
  let ?s = "run_pool (captureTask example_capture) example_tasks [0, 1, 1, 0, 0, 1, 1]
       (start_pool 2 example_tasks [])"
  have fin: "all_finished ?s"
    by (simp add: all_finished_def run_pool_def start_pool_def worker_step_def example_tasks_def
          Let_def numeral_2_eq_2)
  have idx: "map r_index (results ?s) = [1, 0]"
    by (simp add: run_pool_def start_pool_def worker_step_def example_tasks_def
          Let_def numeral_2_eq_2 captureTask_def example_capture_def)
  have ne: "example_tasks \<noteq> []" by (simp add: example_tasks_def)
  from worker_pool_exactly_once[OF _ ne refl fin]
  have "mset (results ?s) = mset [] + mset (map (captureTask example_capture) example_tasks)
         \<and> claimed ?s = [0..<length example_tasks]"
    by simp
  then show ?thesis using fin idx by (simp add: example_tasks_def upt_rec)
qed

end
